theory Spec2Isabelle
  imports Main
begin

section \<open>Data model of the chat client\<close>

text \<open>
  The client (class \<open>MindfulClient\<close>) keeps a conversation as a Python list of message
  dictionaries with the keys \<open>id\<close>, \<open>role\<close>, \<open>content\<close> and \<open>model\<close>.  The content of a
  message is a string (system and assistant turns), a list of parts (user turns) or
  \<open>None\<close> (an assistant turn whose reply could not be decoded).

  A Python \<open>str\<close> is represented by its UTF-8 encoding, a list of 8-bit characters.  All
  string operations the client uses (concatenation, \<open>split\<close> at newline, \<open>startswith\<close>
  with an ASCII prefix, slicing after that prefix, \<open>strip\<close> of the ASCII quote) act on the
  encoding exactly as they act on the code points, because an ASCII byte never occurs
  inside the encoding of another character.
\<close>

text \<open>
  A JSON value, as \<open>json.loads\<close> returns it and as the client builds it for the parts
  of a user message.  A number keeps its literal; an object keeps its members in the
  order in which they were written, and a later member of the same name replaces an
  earlier one, as in a Python dictionary.
\<close>

datatype json =
    JNull
  | JBool bool
  | JNumber string
  | JString string
  | JArray "json list"
  | JObject "(string \<times> json) list"

definition dict_get :: "(string \<times> json) list \<Rightarrow> string \<Rightarrow> json option" where
  "dict_get members k = map_of (rev members) k"

text \<open>The parts of a user message are dictionaries; they are kept as JSON objects.\<close>

datatype content = Text string | Parts "json list" | NoContent

record message =
  msg_id :: string
  role :: string
  content :: content
  model :: string

type_synonym history = "message list"

datatype error =
    KeyError | ValueError | TypeError | AttributeError | IndexError
  | OSError | UploadError | TransportError | UnicodeDecodeError | UnicodeEncodeError
  | JSONDecodeError | RecursionError

section \<open>History persistence\<close>

text \<open>
  What \<open>json.load\<close> makes of the file found at the history's path: a decoding error, a
  list (the messages saved earlier), another value that has a length (a dictionary or a
  string), or a value without one (a number, a boolean, \<open>null\<close>).
\<close>

datatype disk_file =
    Corrupt
  | HistoryFile history
  | Sized nat
  | Unsized

type_synonym disk = "string \<rightharpoonup> disk_file"

text \<open>\<open>os.path.join\<close> of two components on a POSIX system.\<close>

definition os_path_join :: "string \<Rightarrow> string \<Rightarrow> string" where
  "os_path_join a b =
     (if b \<noteq> [] \<and> hd b = CHR ''/'' then b
      else if a = [] \<or> last a = CHR ''/'' then a @ b
      else a @ ''/'' @ b)"

text \<open>
  The path of the history file: the directory is named after the date at the start of
  the task identifier (\<open>task_id.split('_')[0]\<close>, cut into year, month and day).
\<close>

definition file_path :: "string \<Rightarrow> string \<Rightarrow> string" where
  "file_path save_dir task_id =
     (let date_part = takeWhile (\<lambda>c. c \<noteq> CHR ''_'') task_id;
          formatted_date = take 4 date_part @ ''-'' @ take 2 (drop 4 date_part)
                             @ ''-'' @ take 2 (drop 6 date_part);
          chat_dir = os_path_join save_dir formatted_date
      in os_path_join chat_dir (task_id @ ''.json''))"

text \<open>
  The merge of \<open>__save_history\<close>: the messages of the in-memory history beyond the
  length of the existing file are appended to the file's list, and the result replaces
  the variable \<open>history\<close> only when there is at least one such message.  A corrupt file
  leaves \<open>history\<close> as it is.  A value that is not a list fails: \<open>len\<close> raises for a
  value without a length, \<open>extend\<close> raises for a dictionary or a string.
\<close>

fun merge_existing :: "disk_file \<Rightarrow> history \<Rightarrow> error + history" where
  "merge_existing Corrupt h = Inr h"
| "merge_existing (HistoryFile existing_history) h =
     (let existing_len = length existing_history;
          new_messages = drop existing_len h
      in if new_messages \<noteq> [] then Inr (existing_history @ new_messages) else Inr h)"
| "merge_existing (Sized n) h =
     (if drop n h \<noteq> [] then Inl AttributeError else Inr h)"
| "merge_existing Unsized h = Inl TypeError"

section \<open>The client and the environment of a call\<close>

text \<open>
  The fields of the client that the modelled methods read.  \<open>agents\<close> is the table
  \<open>preset["agent"]\<close> of prompt templates, loaded from a preset file that is not part of
  the sources; \<open>format_template t i\<close> is \<open>t.format(system_prompt=i)\<close>, which raises when
  the template has another placeholder.  \<open>model_id\<close> is the provider's model identifier,
  \<open>save_to\<close> the directory of the history files (\<open>None\<close> disables saving),
  \<open>save_as\<close> the export format and \<open>stream_output\<close> the switch of the echo to the
  console.
\<close>

record client =
  agents :: "string \<rightharpoonup> string"
  format_template :: "string \<Rightarrow> string \<Rightarrow> error + string"
  model_id :: string
  save_to :: "string option"
  save_as :: string
  stream_output :: bool

text \<open>
  What a chunk iterator of a response does next: it yields a chunk of bytes, or the
  connection breaks and the iterator raises.
\<close>

datatype chunk_event = Chunk string | Broken

text \<open>
  Everything outside the process that one call of \<open>get_completions\<close> meets:
  the identifier \<open>__get_task_id\<close> would generate, the outcome of \<open>__upload_image\<close> for
  each path, the outcome of the request (\<open>requests.post\<close> with \<open>raise_for_status\<close>:
  an error, or the chunks of the body), whether the file system calls of the save
  fail (\<open>write_error\<close>: creating the directory or opening the file; \<open>convert_error\<close>:
  the export to \<open>txt\<close> or \<open>md\<close>, which writes a second file whose text is not modelled),
  and the console: \<open>console_print printed t\<close> is the exception that \<open>print\<close> raises for
  the text \<open>t\<close> when \<open>printed\<close> is what the decoder has printed before (for instance
  \<open>UnicodeEncodeError\<close> for a character the console cannot encode), and \<open>sleep\<close> is the
  exception that \<open>time.sleep(self.stream_delay)\<close> raises (\<open>ValueError\<close> for a negative
  delay).
\<close>

record env =
  fresh_task_id :: string
  upload_image :: "string \<Rightarrow> error + string option"
  post :: "error + chunk_event list"
  write_error :: bool
  convert_error :: bool
  console_print :: "string \<Rightarrow> string \<Rightarrow> error option"
  sleep :: "error option"

text \<open>
  \<open>__save_history\<close> returns the disk it leaves and the exception it raises, if any.  The
  JSON file is written before the export runs, so a failing export leaves the new file.
\<close>

definition save_history :: "client \<Rightarrow> env \<Rightarrow> disk \<Rightarrow> history \<Rightarrow> disk \<times> error option" where
  "save_history c e fs h =
     (case save_to c of
        None \<Rightarrow> (fs, None)
      | Some dir \<Rightarrow>
          (case h of
             [] \<Rightarrow> (fs, Some IndexError)
           | m # _ \<Rightarrow>
               (let p = file_path dir (msg_id m) in
                if write_error e then (fs, Some OSError)
                else
                  (case (case fs p of None \<Rightarrow> Inr h
                                    | Some f \<Rightarrow> merge_existing f h) of
                     Inl err \<Rightarrow> (fs, Some err)
                   | Inr h' \<Rightarrow>
                       (fs(p \<mapsto> HistoryFile h'),
                        if save_as c \<noteq> ''json'' \<and> convert_error e then Some OSError
                        else None)))))"

section \<open>Session state\<close>

text \<open>Truth value of an optional string: \<open>None\<close> and the empty string are false.\<close>

fun truthy :: "string option \<Rightarrow> bool" where
  "truthy None = False"
| "truthy (Some s) = (s \<noteq> [])"

definition get_agent :: "client \<Rightarrow> string \<Rightarrow> string option \<Rightarrow> error + string" where
  "get_agent c agent instruction =
     (case agents c agent of
        None \<Rightarrow> Inl KeyError
      | Some agent_template \<Rightarrow>
          (case instruction of
             None \<Rightarrow> Inr agent_template
           | Some i \<Rightarrow>
               if agent = ''custom'' \<and> i \<noteq> [] then format_template c agent_template i
               else Inr agent_template))"

definition conversation_role :: "message \<Rightarrow> bool" where
  "conversation_role msg = (role msg = ''user'' \<or> role msg = ''assistant'')"

text \<open>The three dictionaries that \<open>get_completions\<close> builds.\<close>

definition system_message :: "client \<Rightarrow> string \<Rightarrow> string \<Rightarrow> message" where
  "system_message c task_id system_prompt =
     \<lparr>msg_id = task_id, role = ''system'', content = Text system_prompt, model = model_id c\<rparr>"

definition user_message :: "client \<Rightarrow> string \<Rightarrow> json list \<Rightarrow> message" where
  "user_message c task_id message_content =
     \<lparr>msg_id = task_id, role = ''user'', content = Parts message_content, model = model_id c\<rparr>"

definition assistant_message :: "client \<Rightarrow> string \<Rightarrow> string option \<Rightarrow> message" where
  "assistant_message c task_id response_text =
     \<lparr>msg_id = task_id, role = ''assistant'',
      content = (case response_text of None \<Rightarrow> NoContent | Some t \<Rightarrow> Text t),
      model = model_id c\<rparr>"

text \<open>
  An instruction switches the agent to \<open>custom\<close>, and only the custom agent is given
  the instruction.
\<close>

definition requested_agent :: "string \<Rightarrow> string option \<Rightarrow> string" where
  "requested_agent agent instruction = (if truthy instruction then ''custom'' else agent)"

definition requested_instruction :: "string \<Rightarrow> string option \<Rightarrow> string option" where
  "requested_instruction agent instruction =
     (if requested_agent agent instruction = ''custom'' then instruction else None)"

text \<open>
  The first part of \<open>get_completions\<close>, up to the assignment of \<open>task_id\<close>: the system
  prompt of the requested agent is looked up (with the same arguments wherever the
  source calls \<open>__get_agent\<close>) and compared with the content of the first message of
  the given history.  A new list is built when they differ or when there is no history
  (\<open>None\<close> or the empty list); otherwise the given list is kept.
\<close>

definition start_or_continue ::
  "client \<Rightarrow> string \<Rightarrow> history option \<Rightarrow> string \<Rightarrow> string option \<Rightarrow> error + history" where
  "start_or_continue c fresh hist agent instruction =
     (case get_agent c (requested_agent agent instruction)
             (requested_instruction agent instruction) of
        Inl err \<Rightarrow> Inl err
      | Inr system_prompt \<Rightarrow>
          (case hist of
             Some (m # rest) \<Rightarrow>
               if content m \<noteq> Text system_prompt then
                 Inr (system_message c (msg_id m) system_prompt # filter conversation_role rest)
               else Inr (m # rest)
           | _ \<Rightarrow> Inr [system_message c fresh system_prompt]))"

section \<open>The user turn\<close>

text \<open>
  The argument \<open>image_path\<close>: \<open>None\<close>, one path or a list of paths.  The empty string and
  the empty list are false, so no image is uploaded for them.
\<close>

datatype image_arg = NoImage | OnePath string | PathList "string list"

fun image_paths :: "image_arg \<Rightarrow> string list" where
  "image_paths NoImage = []"
| "image_paths (OnePath p) = (if p = [] then [] else [p])"
| "image_paths (PathList ps) = ps"

text \<open>
  The two dictionaries appended to \<open>message_content\<close>.  The reference of an image is
  nested under the key \<open>file_url\<close>; it is \<open>None\<close> when the reply of the upload endpoint
  has no entry for the file.
\<close>

definition text_part :: "string \<Rightarrow> json" where
  "text_part prompt = JObject [(''type'', JString ''text''), (''text'', JString prompt)]"

definition image_part :: "string option \<Rightarrow> json" where
  "image_part image_url =
     JObject [(''type'', JString ''image_url''),
              (''file_url'',
               JObject [(''url'', case image_url of None \<Rightarrow> JNull | Some u \<Rightarrow> JString u)])]"

text \<open>The uploads run in the order of the paths; the first failure ends the turn.\<close>

fun upload_all :: "(string \<Rightarrow> error + string option) \<Rightarrow> string list \<Rightarrow> error + json list" where
  "upload_all up [] = Inr []"
| "upload_all up (img_path # ps) =
     (case up img_path of
        Inl err \<Rightarrow> Inl err
      | Inr image_url \<Rightarrow>
          (case upload_all up ps of
             Inl err \<Rightarrow> Inl err
           | Inr rest \<Rightarrow> Inr (image_part image_url # rest)))"

definition message_content ::
  "(string \<Rightarrow> error + string option) \<Rightarrow> string \<Rightarrow> image_arg \<Rightarrow> error + json list" where
  "message_content up prompt image_path =
     (case upload_all up (image_paths image_path) of
        Inl err \<Rightarrow> Inl err
      | Inr images \<Rightarrow> Inr ((if prompt \<noteq> [] then [text_part prompt] else []) @ images))"

section \<open>The streaming response decoder\<close>

text \<open>\<open>s.startswith(p)\<close> and \<open>p in s\<close> for strings.\<close>

definition startswith :: "string \<Rightarrow> string \<Rightarrow> bool" where
  "startswith s p = (take (length p) s = p)"

fun str_contains :: "string \<Rightarrow> string \<Rightarrow> bool" where
  "str_contains p [] = (p = [])"
| "str_contains p (c # cs) = (startswith (c # cs) p \<or> str_contains p cs)"

text \<open>
  \<open>s.strip()\<close> is empty exactly when \<open>s\<close> consists of white space.  The white space of
  Python's \<open>str.strip\<close> is read here from the UTF-8 encoding: the ASCII characters
  9 to 13 and 28 to 32, and the code points U+0085, U+00A0, U+1680, U+2000 to U+200A,
  U+2028, U+2029, U+202F, U+205F and U+3000.
\<close>

fun blank :: "nat list \<Rightarrow> bool" where
  "blank [] = True"
| "blank (a # bs) =
     (if (9 \<le> a \<and> a \<le> 13) \<or> (28 \<le> a \<and> a \<le> 32) then blank bs
      else if a = 0xC2 then
        (case bs of b # r \<Rightarrow> (b = 0x85 \<or> b = 0xA0) \<and> blank r | _ \<Rightarrow> False)
      else if a = 0xE1 then
        (case bs of b # c # r \<Rightarrow> b = 0x9A \<and> c = 0x80 \<and> blank r | _ \<Rightarrow> False)
      else if a = 0xE2 then
        (case bs of
           b # c # r \<Rightarrow>
             ((b = 0x80 \<and> ((0x80 \<le> c \<and> c \<le> 0x8A) \<or> c = 0xA8 \<or> c = 0xA9 \<or> c = 0xAF))
              \<or> (b = 0x81 \<and> c = 0x9F)) \<and> blank r
         | _ \<Rightarrow> False)
      else if a = 0xE3 then
        (case bs of b # c # r \<Rightarrow> b = 0x80 \<and> c = 0x80 \<and> blank r | _ \<Rightarrow> False)
      else False)"

definition strip_is_empty :: "string \<Rightarrow> bool" where
  "strip_is_empty s = blank (map of_char s)"

text \<open>\<open>s.split('\n')\<close>: the pieces between the newlines, never an empty list.\<close>

fun split_nl :: "string \<Rightarrow> string list" where
  "split_nl [] = [[]]"
| "split_nl (c # cs) =
     (if c = CHR 0x0A then [] # split_nl cs
      else (case split_nl cs of [] \<Rightarrow> [[c]] | l # ls \<Rightarrow> (c # l) # ls))"

text \<open>\<open>s.strip('"')\<close>: every quote at the start and at the end is removed.\<close>

definition strip_quotes :: "string \<Rightarrow> string" where
  "strip_quotes s =
     rev (dropWhile (\<lambda>c. c = CHR 0x22) (rev (dropWhile (\<lambda>c. c = CHR 0x22) s)))"

text \<open>
  \<open>chunk.decode('utf-8')\<close>.  The strict decoder accepts the well-formed byte sequences
  of the Unicode standard: no overlong form, no surrogate, nothing above U+10FFFF, no
  truncated sequence.  The decoded string is represented by the same bytes.
\<close>

definition cont :: "nat \<Rightarrow> bool" where
  "cont b = (0x80 \<le> b \<and> b \<le> 0xBF)"

fun utf8_valid :: "nat list \<Rightarrow> bool" where
  "utf8_valid [] = True"
| "utf8_valid (a # bs) =
     (if a < 0x80 then utf8_valid bs
      else if 0xC2 \<le> a \<and> a \<le> 0xDF then
        (case bs of b # r \<Rightarrow> cont b \<and> utf8_valid r | _ \<Rightarrow> False)
      else if 0xE0 \<le> a \<and> a \<le> 0xEF then
        (case bs of
           b # c # r \<Rightarrow>
             (if a = 0xE0 then 0xA0 \<le> b \<and> b \<le> 0xBF
              else if a = 0xED then 0x80 \<le> b \<and> b \<le> 0x9F
              else cont b) \<and> cont c \<and> utf8_valid r
         | _ \<Rightarrow> False)
      else if 0xF0 \<le> a \<and> a \<le> 0xF4 then
        (case bs of
           b # c # d # r \<Rightarrow>
             (if a = 0xF0 then 0x90 \<le> b \<and> b \<le> 0xBF
              else if a = 0xF4 then 0x80 \<le> b \<and> b \<le> 0x8F
              else cont b) \<and> cont c \<and> cont d \<and> utf8_valid r
         | _ \<Rightarrow> False)
      else False)"

definition decode_utf8 :: "string \<Rightarrow> error + string" where
  "decode_utf8 chunk =
     (if utf8_valid (map of_char chunk) then Inr chunk else Inl UnicodeDecodeError)"

text \<open>
  The echo.  With \<open>stream_output\<close> the decoder prints every character of a new content
  on its own and sleeps after each; both calls are inside the \<open>try\<close> block of the
  method, so an exception of either ends the decoding.  The characters of a string are
  its code points, read here from the UTF-8 encoding by the length that the first byte
  announces.
\<close>

function code_points :: "string \<Rightarrow> string list" where
  "code_points [] = []"
| "code_points (c # cs) =
     (let n = (if (of_char c :: nat) < 0xC0 then 0
               else if (of_char c :: nat) < 0xE0 then 1
               else if (of_char c :: nat) < 0xF0 then 2 else 3)
      in (c # take n cs) # code_points (drop n cs))"
  by pat_completeness auto
termination
  by (relation "measure length") auto

fun echo ::
  "(string \<Rightarrow> string \<Rightarrow> error option) \<Rightarrow> error option \<Rightarrow> string list \<Rightarrow> string \<Rightarrow> error + string" where
  "echo pr sl [] printed = Inr printed"
| "echo pr sl (char # chars) printed =
     (case pr printed char of
        Some err \<Rightarrow> Inl err
      | None \<Rightarrow>
          (case sl of
             Some err \<Rightarrow> Inl err
           | None \<Rightarrow> echo pr sl chars (printed @ char)))"

definition echo_content :: "client \<Rightarrow> env \<Rightarrow> string \<Rightarrow> string \<Rightarrow> error + string" where
  "echo_content c e new_content printed =
     (if stream_output c
      then echo (console_print e) (sleep e) (code_points new_content) printed
      else Inr printed)"

text \<open>
  What the decoder does with one line (the body of the inner loop of
  \<open>__stream_response\<close>, which is repeated for the rest of the buffer after the last
  chunk).  The state is the accumulated text and what has been printed.  \<open>loads\<close> is
  \<open>json.loads\<close>, which returns a value or raises; \<open>JSONDecodeError\<close> is caught for the
  line, and every other exception (\<open>RecursionError\<close> for a text nested too deeply,
  \<open>ValueError\<close> for an integer of too many digits) leaves the method through its outer
  handler.  So does every other exception of the body: \<open>'content' in data\<close> is a key
  test on a dictionary, a membership test on a list, a substring test on a string and a
  \<open>TypeError\<close> on any other value; \<open>data['content']\<close> raises on a list or a string;
  \<open>stream_text += new_content\<close> raises unless the content is a string; and the echo
  raises what \<open>print\<close> or \<open>time.sleep\<close> raise.
\<close>

definition handle_line ::
  "(string \<Rightarrow> error + json) \<Rightarrow> client \<Rightarrow> env \<Rightarrow> string \<Rightarrow> string \<times> string \<Rightarrow>
   error + string \<times> string" where
  "handle_line loads c e line st =
     (if \<not> strip_is_empty line \<and> startswith line ''data: '' then
        (case loads (drop 6 line) of
           Inl err \<Rightarrow> if err = JSONDecodeError then Inr st else Inl err
         | Inr data \<Rightarrow>
             (case data of
                JObject members \<Rightarrow>
                  (case dict_get members ''content'' of
                     None \<Rightarrow> Inr st
                   | Some (JString new_content) \<Rightarrow>
                       (case echo_content c e new_content (snd st) of
                          Inl err \<Rightarrow> Inl err
                        | Inr printed \<Rightarrow> Inr (fst st @ new_content, printed))
                   | Some _ \<Rightarrow> Inl TypeError)
              | JArray xs \<Rightarrow>
                  if JString ''content'' \<in> set xs then Inl TypeError else Inr st
              | JString s \<Rightarrow>
                  if str_contains ''content'' s then Inl TypeError else Inr st
              | _ \<Rightarrow> Inl TypeError))
      else Inr st)"

fun process_lines ::
  "(string \<Rightarrow> error + json) \<Rightarrow> client \<Rightarrow> env \<Rightarrow> string list \<Rightarrow> string \<times> string \<Rightarrow>
   error + string \<times> string" where
  "process_lines loads c e [] st = Inr st"
| "process_lines loads c e (line # lines) st =
     (case handle_line loads c e line st of
        Inl err \<Rightarrow> Inl err
      | Inr st' \<Rightarrow> process_lines loads c e lines st')"

text \<open>
  The loop over the chunks; the state is the buffer, the accumulated text and what has
  been printed.  An empty chunk is skipped.  All lines but the last piece of the buffer
  are handled, the last piece stays in the buffer.
\<close>

fun stream_loop ::
  "(string \<Rightarrow> error + json) \<Rightarrow> client \<Rightarrow> env \<Rightarrow> chunk_event list \<Rightarrow> string \<Rightarrow>
   string \<times> string \<Rightarrow> error + string \<times> string \<times> string" where
  "stream_loop loads c e [] buffer st = Inr (buffer, st)"
| "stream_loop loads c e (Broken # rest) buffer st = Inl TransportError"
| "stream_loop loads c e (Chunk chunk # rest) buffer st =
     (if chunk = [] then stream_loop loads c e rest buffer st
      else
        (case decode_utf8 chunk of
           Inl err \<Rightarrow> Inl err
         | Inr s \<Rightarrow>
             (let lines = split_nl (buffer @ s) in
              case process_lines loads c e (butlast lines) st of
                Inl err \<Rightarrow> Inl err
              | Inr st' \<Rightarrow> stream_loop loads c e rest (last lines) st')))"

text \<open>The last \<open>print()\<close> of the method, which ends the echoed line.\<close>

definition finish :: "client \<Rightarrow> env \<Rightarrow> string \<times> string \<Rightarrow> error + string" where
  "finish c e st =
     (if stream_output c then
        (case console_print e (snd st) [CHR 0x0A] of
           Some err \<Rightarrow> Inl err
         | None \<Rightarrow> Inr (fst st))
      else Inr (fst st))"

text \<open>The text accumulated from a response, before the quotes are stripped.\<close>

definition accumulate ::
  "(string \<Rightarrow> error + json) \<Rightarrow> client \<Rightarrow> env \<Rightarrow> chunk_event list \<Rightarrow> string \<Rightarrow>
   error + string" where
  "accumulate loads c e response stream_text =
     (case stream_loop loads c e response [] (stream_text, []) of
        Inl err \<Rightarrow> Inl err
      | Inr (buffer, st) \<Rightarrow>
          (case handle_line loads c e buffer st of
             Inl err \<Rightarrow> Inl err
           | Inr st' \<Rightarrow> finish c e st'))"

text \<open>\<open>__stream_response\<close>: any exception gives \<open>None\<close>.\<close>

definition stream_response ::
  "(string \<Rightarrow> error + json) \<Rightarrow> client \<Rightarrow> env \<Rightarrow> chunk_event list \<Rightarrow> string \<Rightarrow>
   string option" where
  "stream_response loads c e response stream_text =
     (case accumulate loads c e response stream_text of
        Inl err \<Rightarrow> None
      | Inr t \<Rightarrow> Some (strip_quotes t))"

section \<open>A complete turn\<close>

text \<open>
  \<open>get_completions\<close> returns the response, the value of its variable \<open>history\<close> and
  the disk.  Every exception inside its \<open>try\<close> block reaches the handler
  \<open>return None, history\<close>, which returns whatever the variable holds at that moment.
\<close>

definition get_completions ::
  "(string \<Rightarrow> error + json) \<Rightarrow> client \<Rightarrow> env \<Rightarrow> disk \<Rightarrow> string \<Rightarrow> image_arg \<Rightarrow>
   history option \<Rightarrow> string \<Rightarrow> string option \<Rightarrow> string option \<times> history option \<times> disk" where
  "get_completions loads c e fs prompt image_path hist agent instruction =
     (case start_or_continue c (fresh_task_id e) hist agent instruction of
        Inl err \<Rightarrow> (None, hist, fs)
      | Inr h0 \<Rightarrow>
          (case h0 of
             [] \<Rightarrow> (None, Some h0, fs)
           | m0 # _ \<Rightarrow>
               (let task_id = msg_id m0 in
                case message_content (upload_image e) prompt image_path of
                  Inl err \<Rightarrow> (None, Some h0, fs)
                | Inr parts \<Rightarrow>
                    (let h1 = h0 @ [user_message c task_id parts]
                     in case post e of
                          Inl err \<Rightarrow> (None, Some h1, fs)
                        | Inr response \<Rightarrow>
                            (let response_text = stream_response loads c e response [];
                                 h2 = h1 @ [assistant_message c task_id response_text]
                             in case save_history c e fs h2 of
                                  (fs', Some err) \<Rightarrow> (None, Some h2, fs')
                                | (fs', None) \<Rightarrow> (response_text, Some h2, fs'))))))"

text \<open>
  The invariant of a history: the first message has the role \<open>system\<close>, and every
  message carries the identifier of the first.
\<close>

definition history_invariant :: "history \<Rightarrow> bool" where
  "history_invariant h =
     (case h of
        [] \<Rightarrow> False
      | m # rest \<Rightarrow> role m = ''system'' \<and> list_all (\<lambda>x. msg_id x = msg_id m) rest)"

section \<open>The JSON decoder of the standard library\<close>

text \<open>
  The decoder takes \<open>json.loads\<close> as a parameter, so the theorems about it hold for
  every decoder.  Concrete streams are evaluated with the function below, which follows
  the scanner of Python's \<open>json\<close> module on a string: white space is space, tab,
  newline and carriage return; a leading byte order mark is refused; a string ends at
  the first quote, refuses a control character and reads the escapes of the quote, the
  backslash, the slash, of \<open>b f n r t\<close> and of \<open>u\<close> with four hexadecimal digits (a
  surrogate pair of two such escapes is one code point); a number is the longest match
  of the number pattern, and \<open>NaN\<close>, \<open>Infinity\<close> and \<open>-Infinity\<close> are accepted; text
  after the value is refused.  The decoded string is again represented by its UTF-8
  encoding.

  The function raises \<open>JSONDecodeError\<close> for a text it refuses, and two other
  exceptions: \<open>ValueError\<close> for an integer literal of more than 4300 digits (the limit
  of the conversion of a string to an integer), and \<open>RecursionError\<close> when the arrays
  and objects of the text are nested deeper than the interpreter allows.  The scanner
  enters one level of recursion for every array and object it opens; \<open>limit\<close> is the
  number of levels it may enter.

  The recursion of the definition is bounded by fuel, one unit for each call;
  \<open>json_loads_limit\<close> gives two units for every character of the text.  Of two calls
  that follow each other at least one reads a character first, so this fuel is not
  used up.
\<close>

definition is_ws :: "char \<Rightarrow> bool" where
  "is_ws c = (c = CHR 0x20 \<or> c = CHR 0x09 \<or> c = CHR 0x0A \<or> c = CHR 0x0D)"

definition skip_ws :: "string \<Rightarrow> string" where
  "skip_ws s = dropWhile is_ws s"

definition is_digit :: "char \<Rightarrow> bool" where
  "is_digit c = (48 \<le> (of_char c :: nat) \<and> (of_char c :: nat) \<le> 57)"

definition hex_val :: "char \<Rightarrow> nat option" where
  "hex_val c =
     (let n = (of_char c :: nat) in
      if 48 \<le> n \<and> n \<le> 57 then Some (n - 48)
      else if 65 \<le> n \<and> n \<le> 70 then Some (n - 55)
      else if 97 \<le> n \<and> n \<le> 102 then Some (n - 87)
      else None)"

fun hex4 :: "string \<Rightarrow> (nat \<times> string) option" where
  "hex4 (a # b # c # d # r) =
     (case (hex_val a, hex_val b, hex_val c, hex_val d) of
        (Some w, Some x, Some y, Some z) \<Rightarrow> Some (((w * 16 + x) * 16 + y) * 16 + z, r)
      | _ \<Rightarrow> None)"
| "hex4 _ = None"

definition utf8_encode :: "nat \<Rightarrow> string" where
  "utf8_encode n =
     (if n < 0x80 then [char_of n]
      else if n < 0x800 then [char_of (0xC0 + n div 64), char_of (0x80 + n mod 64)]
      else if n < 0x10000 then
        [char_of (0xE0 + n div 4096), char_of (0x80 + (n div 64) mod 64),
         char_of (0x80 + n mod 64)]
      else
        [char_of (0xF0 + n div 262144), char_of (0x80 + (n div 4096) mod 64),
         char_of (0x80 + (n div 64) mod 64), char_of (0x80 + n mod 64)])"

definition backslash :: "char \<Rightarrow> char option" where
  "backslash c =
     (if c = CHR 0x22 then Some (CHR 0x22)
      else if c = CHR 0x5C then Some (CHR 0x5C)
      else if c = CHR ''/'' then Some (CHR ''/'')
      else if c = CHR ''b'' then Some (CHR 0x08)
      else if c = CHR ''f'' then Some (CHR 0x0C)
      else if c = CHR ''n'' then Some (CHR 0x0A)
      else if c = CHR ''r'' then Some (CHR 0x0D)
      else if c = CHR ''t'' then Some (CHR 0x09)
      else None)"

definition scan_unicode :: "string \<Rightarrow> (string \<times> string) option" where
  "scan_unicode s =
     (case hex4 s of
        None \<Rightarrow> None
      | Some (uni, r) \<Rightarrow>
          if 0xD800 \<le> uni \<and> uni \<le> 0xDBFF \<and> startswith r [CHR 0x5C, CHR ''u''] then
            (case hex4 (drop 2 r) of
               None \<Rightarrow> None
             | Some (uni2, r2) \<Rightarrow>
                 if 0xDC00 \<le> uni2 \<and> uni2 \<le> 0xDFFF then
                   Some (utf8_encode (0x10000 + (uni - 0xD800) * 1024 + (uni2 - 0xDC00)), r2)
                 else Some (utf8_encode uni, r))
          else Some (utf8_encode uni, r))"

definition scan_escape :: "string \<Rightarrow> (string \<times> string) option" where
  "scan_escape s =
     (case s of
        [] \<Rightarrow> None
      | esc # r \<Rightarrow>
          if esc = CHR ''u'' then scan_unicode r
          else (case backslash esc of None \<Rightarrow> None | Some ch \<Rightarrow> Some ([ch], r)))"

lemma hex4_rest: "hex4 s = Some (n, r) \<Longrightarrow> length r < length s"
  by (induction s rule: hex4.induct) (auto split: option.splits)

lemma scan_unicode_rest: "scan_unicode s = Some (out, r) \<Longrightarrow> length r < length s"
  unfolding scan_unicode_def
  by (auto split: option.splits if_splits dest!: hex4_rest)

lemma scan_escape_rest: "scan_escape s = Some (out, r) \<Longrightarrow> length r < length s"
  unfolding scan_escape_def
  by (auto split: list.splits option.splits if_splits dest!: scan_unicode_rest)

function scanstring :: "string \<Rightarrow> (string \<times> string) option" where
  "scanstring [] = None"
| "scanstring (c # cs) =
     (if c = CHR 0x22 then Some ([], cs)
      else if c = CHR 0x5C then
        (case scan_escape cs of
           None \<Rightarrow> None
         | Some (out, r) \<Rightarrow>
             (case scanstring r of None \<Rightarrow> None | Some (t, r') \<Rightarrow> Some (out @ t, r')))
      else if (of_char c :: nat) < 0x20 then None
      else (case scanstring cs of None \<Rightarrow> None | Some (t, r') \<Rightarrow> Some (c # t, r')))"
  by pat_completeness auto
termination
  by (relation "measure length") (auto dest!: scan_escape_rest)

definition scan_digits :: "string \<Rightarrow> string \<times> string" where
  "scan_digits s = (takeWhile is_digit s, dropWhile is_digit s)"

text \<open>
  The number at the start of a text: its literal, the number of digits of an integer
  literal (0 for a literal with a fraction or an exponent), and the rest of the text.
\<close>

definition scan_number :: "string \<Rightarrow> (string \<times> nat \<times> string) option" where
  "scan_number s =
     (let (sign, s1) = (case s of c # r \<Rightarrow> if c = CHR ''-'' then ([c], r) else ([], s) | [] \<Rightarrow> ([], s))
      in case s1 of
           [] \<Rightarrow> None
         | d # r \<Rightarrow>
             if \<not> is_digit d then None
             else
               (let (int_part, s2) = (if d = CHR ''0'' then ([d], r)
                                      else (d # fst (scan_digits r), snd (scan_digits r)));
                    (frac, s3) = (case s2 of
                                    p # f # r3 \<Rightarrow>
                                      if p = CHR ''.'' \<and> is_digit f
                                      then (p # f # fst (scan_digits r3), snd (scan_digits r3))
                                      else ([], s2)
                                  | _ \<Rightarrow> ([], s2));
                    (ex, s4) = (case s3 of
                                  e # r4 \<Rightarrow>
                                    if e = CHR ''e'' \<or> e = CHR ''E'' then
                                      (case r4 of
                                         g # r5 \<Rightarrow>
                                           if is_digit g
                                           then (e # g # fst (scan_digits r5), snd (scan_digits r5))
                                           else if (g = CHR ''+'' \<or> g = CHR ''-'')
                                                   \<and> r5 \<noteq> [] \<and> is_digit (hd r5)
                                           then (e # g # fst (scan_digits r5), snd (scan_digits r5))
                                           else ([], s3)
                                       | [] \<Rightarrow> ([], s3))
                                    else ([], s3)
                                | [] \<Rightarrow> ([], s3))
                in Some (sign @ int_part @ frac @ ex,
                         if frac = [] \<and> ex = [] then length int_part else 0, s4)))"

definition scan_literal :: "string \<Rightarrow> error + json \<times> string" where
  "scan_literal s =
     (if startswith s ''null'' then Inr (JNull, drop 4 s)
      else if startswith s ''true'' then Inr (JBool True, drop 4 s)
      else if startswith s ''false'' then Inr (JBool False, drop 5 s)
      else
        (case scan_number s of
           Some (lit, digits, r) \<Rightarrow>
             if 4300 < digits then Inl ValueError else Inr (JNumber lit, r)
         | None \<Rightarrow>
             if startswith s ''NaN'' then Inr (JNumber ''NaN'', drop 3 s)
             else if startswith s ''Infinity'' then Inr (JNumber ''Infinity'', drop 8 s)
             else if startswith s ''-Infinity'' then Inr (JNumber ''-Infinity'', drop 9 s)
             else Inl JSONDecodeError))"

text \<open>
  The scanner: the first argument is the fuel, the second the number of levels of
  nesting it may still enter.
\<close>

fun scan_once :: "nat \<Rightarrow> nat \<Rightarrow> string \<Rightarrow> error + json \<times> string"
and scan_array :: "nat \<Rightarrow> nat \<Rightarrow> string \<Rightarrow> error + json list \<times> string"
and scan_object :: "nat \<Rightarrow> nat \<Rightarrow> string \<Rightarrow> error + (string \<times> json) list \<times> string" where
  "scan_once 0 depth s = Inl JSONDecodeError"
| "scan_once (Suc n) depth s =
     (case s of
        [] \<Rightarrow> Inl JSONDecodeError
      | c # cs \<Rightarrow>
          if c = CHR 0x22 then
            (case scanstring cs of
               None \<Rightarrow> Inl JSONDecodeError
             | Some (t, r) \<Rightarrow> Inr (JString t, r))
          else if c = CHR ''{'' then
            (case depth of
               0 \<Rightarrow> Inl RecursionError
             | Suc depth' \<Rightarrow>
                 (case skip_ws cs of
                    [] \<Rightarrow> Inl JSONDecodeError
                  | d # r \<Rightarrow>
                      if d = CHR ''}'' then Inr (JObject [], r)
                      else (case scan_object n depth' (d # r) of
                              Inl err \<Rightarrow> Inl err
                            | Inr (members, r') \<Rightarrow> Inr (JObject members, r'))))
          else if c = CHR ''['' then
            (case depth of
               0 \<Rightarrow> Inl RecursionError
             | Suc depth' \<Rightarrow>
                 (case skip_ws cs of
                    [] \<Rightarrow> Inl JSONDecodeError
                  | d # r \<Rightarrow>
                      if d = CHR '']'' then Inr (JArray [], r)
                      else (case scan_array n depth' (d # r) of
                              Inl err \<Rightarrow> Inl err
                            | Inr (values, r') \<Rightarrow> Inr (JArray values, r'))))
          else scan_literal s)"
| "scan_array 0 depth s = Inl JSONDecodeError"
| "scan_array (Suc n) depth s =
     (case scan_once n depth s of
        Inl err \<Rightarrow> Inl err
      | Inr (v, r) \<Rightarrow>
          (case skip_ws r of
             [] \<Rightarrow> Inl JSONDecodeError
           | d # r' \<Rightarrow>
               if d = CHR '']'' then Inr ([v], r')
               else if d = CHR '','' then
                 (case scan_array n depth (skip_ws r') of
                    Inl err \<Rightarrow> Inl err
                  | Inr (vs, r'') \<Rightarrow> Inr (v # vs, r''))
               else Inl JSONDecodeError))"
| "scan_object 0 depth s = Inl JSONDecodeError"
| "scan_object (Suc n) depth s =
     (case s of
        [] \<Rightarrow> Inl JSONDecodeError
      | c # cs \<Rightarrow>
          if c \<noteq> CHR 0x22 then Inl JSONDecodeError
          else
            (case scanstring cs of
               None \<Rightarrow> Inl JSONDecodeError
             | Some (key, r) \<Rightarrow>
                 (case skip_ws r of
                    [] \<Rightarrow> Inl JSONDecodeError
                  | d # r1 \<Rightarrow>
                      if d \<noteq> CHR '':'' then Inl JSONDecodeError
                      else
                        (case scan_once n depth (skip_ws r1) of
                           Inl err \<Rightarrow> Inl err
                         | Inr (v, r2) \<Rightarrow>
                             (case skip_ws r2 of
                                [] \<Rightarrow> Inl JSONDecodeError
                              | d' # r3 \<Rightarrow>
                                  if d' = CHR ''}'' then Inr ([(key, v)], r3)
                                  else if d' = CHR '','' then
                                    (case scan_object n depth (skip_ws r3) of
                                       Inl err \<Rightarrow> Inl err
                                     | Inr (members, r4) \<Rightarrow> Inr ((key, v) # members, r4))
                                  else Inl JSONDecodeError)))))"

definition json_loads_limit :: "nat \<Rightarrow> string \<Rightarrow> error + json" where
  "json_loads_limit limit s =
     (if startswith s [CHR 0xEF, CHR 0xBB, CHR 0xBF] then Inl JSONDecodeError
      else
        (case scan_once (2 * length s + 2) limit (skip_ws s) of
           Inl err \<Rightarrow> Inl err
         | Inr (v, r) \<Rightarrow> if skip_ws r = [] then Inr v else Inl JSONDecodeError))"

text \<open>
  The interpreter's recursion limit is 1000 unless it is changed.  The levels already in
  use when the scanner starts are not subtracted here, so the interpreter gives up no
  later than this function.
\<close>

definition json_loads :: "string \<Rightarrow> error + json" where
  "json_loads s = json_loads_limit 1000 s"

section \<open>Well-formed streams\<close>

text \<open>
  The text of a stream whose lines all end with a newline, and the lines the claims are
  about: a content line is \<open>data: \<close> followed by a JSON text that decodes to an object
  whose member \<open>content\<close> is the string \<open>s\<close>; a malformed line is \<open>data: \<close> followed
  by a text the JSON decoder refuses.
\<close>

definition wire :: "string list \<Rightarrow> string" where
  "wire lines = concat (map (\<lambda>l. l @ [CHR 0x0A]) lines)"

definition content_line :: "(string \<Rightarrow> error + json) \<Rightarrow> string \<Rightarrow> string \<Rightarrow> bool" where
  "content_line loads line s =
     (CHR 0x0A \<notin> set line \<and> startswith line ''data: '' \<and>
      (case loads (drop 6 line) of
         Inr (JObject members) \<Rightarrow> dict_get members ''content'' = Some (JString s)
       | _ \<Rightarrow> False))"

definition malformed_line :: "(string \<Rightarrow> error + json) \<Rightarrow> string \<Rightarrow> bool" where
  "malformed_line loads line =
     (CHR 0x0A \<notin> set line \<and> startswith line ''data: ''
      \<and> loads (drop 6 line) = Inl JSONDecodeError)"

definition chunks_decodable :: "string list \<Rightarrow> bool" where
  "chunks_decodable chunks = list_all (\<lambda>c. utf8_valid (map of_char c)) chunks"

text \<open>
  The echo raises nothing for a list of contents: it is switched off, or the console
  takes every character of every content in turn, no sleep raises, and the console
  takes the newline that ends the line.
\<close>

definition echo_succeeds :: "client \<Rightarrow> env \<Rightarrow> string list \<Rightarrow> bool" where
  "echo_succeeds c e contents =
     (\<not> stream_output c \<or>
      (case echo (console_print e) (sleep e) (concat (map code_points contents)) [] of
         Inl err \<Rightarrow> False
       | Inr printed \<Rightarrow> console_print e printed [CHR 0x0A] = None))"

section \<open>Example values\<close>

text \<open>
  Concrete streams: two content lines cut into chunks inside a line, with an empty chunk
  and with the last line left open; a content whose JSON text escapes a quote at each
  end, and one with two quotes at each end; a content with a two-byte character, whole
  and cut between its bytes; a line whose JSON text breaks off; and a line whose JSON
  text opens 1001 arrays.
\<close>

definition hello_lines :: "string list" where
  \<open>hello_lines = [''data: {"content": "Hel"}'', ''data: {"content": "lo"}'']\<close>

definition hello_chunks :: "string list" where
  \<open>hello_chunks = [''data: {"con'', ''tent": "Hel"}\<newline>da'', [], ''ta: {"content": "lo"}'']\<close>

definition quoted_line :: string where
  \<open>quoted_line = ''data: {"content": "'' @ [CHR 0x5C, CHR 0x22] @ ''hi''
                     @ [CHR 0x5C, CHR 0x22] @ ''"}''\<close>

definition accent_line :: string where
  \<open>accent_line = ''data: {"content": "'' @ [CHR 0xC3, CHR 0xA9] @ ''"}''\<close>

definition accent_chunks :: "string list" where
  \<open>accent_chunks = [''data: {"content": "'' @ [CHR 0xC3], [CHR 0xA9] @ ''"}\<newline>'']\<close>

definition doubly_quoted_line :: string where
  \<open>doubly_quoted_line =
     ''data: {"content": "'' @ [CHR 0x5C, CHR 0x22, CHR 0x5C, CHR 0x22] @ ''hi''
       @ [CHR 0x5C, CHR 0x22, CHR 0x5C, CHR 0x22] @ ''"}''\<close>

definition cut_line :: string where
  \<open>cut_line = ''data: {"content": "lost''\<close>

definition deep_line :: string where
  "deep_line = ''data: '' @ replicate 1001 (CHR ''['')"


text \<open>
  A client with two agents, an environment in which the uploads of \<open>cat.png\<close> and
  \<open>dog.png\<close> succeed, the request is answered with the two content lines above and the
  console prints everything, and the messages of a short conversation.  The template of the custom agent consists of its placeholder, so
  formatting it gives the instruction.
\<close>

definition ex_format :: "string \<Rightarrow> string \<Rightarrow> error + string" where
  "ex_format t i = (if t = ''{system_prompt}'' then Inr i else Inr t)"

definition ex_client :: client where
  "ex_client =
     \<lparr>agents = [''default'' \<mapsto> ''You are a helpful assistant.'',
                ''custom'' \<mapsto> ''{system_prompt}''],
      format_template = ex_format,
      model_id = ''omni-1'',
      save_to = Some ''outputs/mindful'',
      save_as = ''json'',
      stream_output = True\<rparr>"

definition ex_task_id :: string where
  "ex_task_id = ''20250102_030405_1a2b3c4d''"

definition ex_path :: string where
  "ex_path = ''outputs/mindful/2025-01-02/20250102_030405_1a2b3c4d.json''"

definition ex_env :: env where
  "ex_env =
     \<lparr>fresh_task_id = ex_task_id,
      upload_image = (\<lambda>p. if p = ''cat.png'' then Inr (Some ''https://files.example/cat'')
                          else if p = ''dog.png'' then Inr (Some ''https://files.example/dog'')
                          else Inl UploadError),
      post = Inr [Chunk (wire hello_lines)],
      write_error = False,
      convert_error = False,
      console_print = (\<lambda>printed t. None),
      sleep = None\<rparr>"

definition ex_system :: message where
  "ex_system = system_message ex_client ex_task_id ''You are a helpful assistant.''"

definition ex_user :: message where
  "ex_user = user_message ex_client ex_task_id [text_part ''Hi'']"

definition ex_assistant :: message where
  "ex_assistant = assistant_message ex_client ex_task_id (Some ''Good day'')"

definition ex_user2 :: message where
  "ex_user2 = user_message ex_client ex_task_id [text_part ''More'']"

definition ex_tool :: message where
  "ex_tool = \<lparr>msg_id = ex_task_id, role = ''tool'', content = Text ''42'', model = ''omni-1''\<rparr>"

section \<open>Properties of the decoder\<close>

subsection \<open>Chunk boundaries\<close>

text \<open>
  The pieces of a text cut at the newlines do not depend on where the text is cut into
  chunks: the loop hands the same lines, in the same order, to the line handler.
\<close>

lemma split_nl_nonempty: "split_nl s \<noteq> []"
  by (induction s) (auto split: list.splits)

lemma split_nl_no_newline: "CHR 0x0A \<notin> set s \<Longrightarrow> split_nl s = [s]"
  by (induction s) auto

lemma last_split_nl_no_newline: "CHR 0x0A \<notin> set (last (split_nl s))"
  by (induction s) (auto split: list.splits simp: split_nl_nonempty)

lemma split_nl_append:
  "split_nl (a @ b) = butlast (split_nl a) @ split_nl (last (split_nl a) @ b)"
proof (induction a)
  case Nil
  then show ?case by simp
next
  case (Cons c a)
  show ?case
  proof (cases "c = CHR 0x0A")
    case True
    then show ?thesis using Cons by (simp add: split_nl_nonempty)
  next
    case False
    obtain l ls where sp: "split_nl a = l # ls"
      using split_nl_nonempty by (cases "split_nl a") auto
    show ?thesis
    proof (cases ls)
      case Nil
      then show ?thesis using False sp Cons by simp
    next
      case (Cons l' ls')
      obtain k ks where sk: "split_nl (a @ b) = k # ks"
        using split_nl_nonempty by (cases "split_nl (a @ b)") auto
      from Cons sp sk Cons.IH False show ?thesis by simp
    qed
  qed
qed

lemma split_nl_line:
  "CHR 0x0A \<notin> set l \<Longrightarrow> split_nl (l @ CHR 0x0A # rest) = l # split_nl rest"
  by (induction l) auto

lemma process_lines_append:
  "process_lines loads c e (xs @ ys) t =
     (case process_lines loads c e xs t of
        Inl err \<Rightarrow> Inl err
      | Inr t' \<Rightarrow> process_lines loads c e ys t')"
  by (induction xs arbitrary: t) (auto split: sum.splits)

lemma stream_loop_chunks:
  assumes "chunks_decodable cs"
      and "CHR 0x0A \<notin> set buffer"
  shows "stream_loop loads c e (map Chunk cs) buffer t =
           (case process_lines loads c e (butlast (split_nl (buffer @ concat cs))) t of
              Inl err \<Rightarrow> Inl err
            | Inr t' \<Rightarrow> Inr (last (split_nl (buffer @ concat cs)), t'))"
  using assms
proof (induction cs arbitrary: buffer t)
  case Nil
  then show ?case by (simp add: split_nl_no_newline)
next
  case (Cons ch cs)
  show ?case
  proof (cases "ch = []")
    case True
    then show ?thesis using Cons by (simp add: chunks_decodable_def cong: sum.case_cong)
  next
    case False
    have dec: "decode_utf8 ch = Inr ch"
      using Cons.prems by (simp add: decode_utf8_def chunks_decodable_def)
    let ?ls = "split_nl (buffer @ ch)"
    have eq: "split_nl (buffer @ concat (ch # cs)) = butlast ?ls @ split_nl (last ?ls @ concat cs)"
      using split_nl_append [of "buffer @ ch" "concat cs"] by simp
    have ne: "split_nl (last ?ls @ concat cs) \<noteq> []" by (rule split_nl_nonempty)
    have bl: "butlast (split_nl (buffer @ concat (ch # cs))) =
                butlast ?ls @ butlast (split_nl (last ?ls @ concat cs))"
      using eq ne by (simp add: butlast_append)
    have la: "last (split_nl (buffer @ concat (ch # cs))) = last (split_nl (last ?ls @ concat cs))"
      using eq ne by simp
    have ih: "\<And>t'. stream_loop loads c e (map Chunk cs) (last ?ls) t' =
           (case process_lines loads c e (butlast (split_nl (last ?ls @ concat cs))) t' of
              Inl err \<Rightarrow> Inl err
            | Inr t'' \<Rightarrow> Inr (last (split_nl (last ?ls @ concat cs)), t''))"
      using Cons.IH [of "last ?ls"] Cons.prems last_split_nl_no_newline
      by (simp add: chunks_decodable_def)
    show ?thesis
      using False dec
      by (simp only: list.map stream_loop.simps if_False sum.case Let_def bl la
            process_lines_append ih split: sum.splits) (auto split: sum.splits)
  qed
qed

lemma handle_line_empty: "handle_line loads c e [] st = Inr st"
  by (simp add: handle_line_def strip_is_empty_def)

lemma process_lines_snoc:
  "process_lines loads c e (xs @ [l]) st =
     (case process_lines loads c e xs st of
        Inl err \<Rightarrow> Inl err
      | Inr st' \<Rightarrow> handle_line loads c e l st')"
  by (simp add: process_lines_append split: sum.splits)

lemma accumulate_chunks:
  assumes "chunks_decodable cs"
  shows "accumulate loads c e (map Chunk cs) t =
           (case process_lines loads c e (split_nl (concat cs)) (t, []) of
              Inl err \<Rightarrow> Inl err
            | Inr st \<Rightarrow> finish c e st)"
proof -
  let ?ls = "split_nl (concat cs)"
  have "?ls = butlast ?ls @ [last ?ls]" using split_nl_nonempty by simp
  then have "process_lines loads c e ?ls (t, []) =
      (case process_lines loads c e (butlast ?ls) (t, []) of Inl err \<Rightarrow> Inl err
        | Inr st' \<Rightarrow> handle_line loads c e (last ?ls) st')"
    using process_lines_snoc [of loads c e "butlast ?ls" "last ?ls" "(t, [])"] by simp
  moreover have "stream_loop loads c e (map Chunk cs) [] (t, []) =
           (case process_lines loads c e (butlast ?ls) (t, []) of
              Inl err \<Rightarrow> Inl err
            | Inr st' \<Rightarrow> Inr (last ?ls, st'))"
    using stream_loop_chunks [OF assms, of "[]" loads c e "(t, [])"]
    by (simp cong: sum.case_cong)
  ultimately show ?thesis by (simp add: accumulate_def split: sum.splits)
qed

lemma split_nl_wire: "\<forall>l \<in> set ls. CHR 0x0A \<notin> set l \<Longrightarrow> split_nl (wire ls @ r) = ls @ split_nl r"
  by (induction ls) (auto simp: wire_def split_nl_line)

lemma butlast_wire: "ls \<noteq> [] \<Longrightarrow> butlast (wire ls) = wire (butlast ls) @ last ls"
  by (induction ls) (auto simp: wire_def butlast_append)

lemma split_nl_wire_or_open:
  assumes "\<forall>l \<in> set ls. CHR 0x0A \<notin> set l"
      and "text = wire ls \<or> text = butlast (wire ls)"
  shows "split_nl text = ls @ [[]] \<or> split_nl text = ls"
proof (cases "text = wire ls")
  case True
  then show ?thesis using split_nl_wire [OF assms(1), of "[]"] by simp
next
  case False
  then have t: "text = butlast (wire ls)" using assms(2) by simp
  show ?thesis
  proof (cases "ls = []")
    case True
    then show ?thesis using t False by (simp add: wire_def)
  next
    case ne: False
    have "\<forall>l \<in> set (butlast ls). CHR 0x0A \<notin> set l"
      using assms(1) by (meson in_set_butlastD)
    then have "split_nl (wire (butlast ls) @ last ls) = butlast ls @ split_nl (last ls)"
      by (rule split_nl_wire)
    moreover have "split_nl (last ls) = [last ls]"
      using assms(1) ne by (simp add: split_nl_no_newline)
    ultimately show ?thesis using t ne by (simp add: butlast_wire)
  qed
qed

lemma data_not_blank: "startswith l ''data: '' \<Longrightarrow> \<not> strip_is_empty l"
  by (cases l) (auto simp: startswith_def strip_is_empty_def)

lemma echo_append:
  "echo pr sl (xs @ ys) printed =
     (case echo pr sl xs printed of
        Inl err \<Rightarrow> Inl err
      | Inr printed' \<Rightarrow> echo pr sl ys printed')"
  by (induction xs arbitrary: printed) (auto split: option.splits)

lemma handle_content_line:
  "content_line loads l s \<Longrightarrow>
   handle_line loads c e l st =
     (case echo_content c e s (snd st) of
        Inl err \<Rightarrow> Inl err
      | Inr printed \<Rightarrow> Inr (fst st @ s, printed))"
  by (auto simp: content_line_def handle_line_def data_not_blank
           split: sum.splits json.splits)

lemma handle_malformed_line:
  "malformed_line loads l \<Longrightarrow> handle_line loads c e l st = Inr st"
  by (auto simp: malformed_line_def handle_line_def)

lemma process_content_lines:
  "list_all2 (content_line loads) ls ss \<Longrightarrow>
   process_lines loads c e ls (t, printed) =
     (if stream_output c then
        (case echo (console_print e) (sleep e) (concat (map code_points ss)) printed of
           Inl err \<Rightarrow> Inl err
         | Inr printed' \<Rightarrow> Inr (t @ concat ss, printed'))
      else Inr (t @ concat ss, printed))"
proof (induction ls ss arbitrary: t printed rule: list_all2_induct)
  case Nil
  then show ?case by simp
next
  case (Cons l s ls ss)
  show ?case
    using Cons.hyps(1) Cons.IH
    by (auto simp: handle_content_line echo_content_def echo_append split: sum.splits)
qed

lemma content_lines_no_newline:
  "list_all2 (content_line loads) ls ss \<Longrightarrow> \<forall>l \<in> set ls. CHR 0x0A \<notin> set l"
  by (induction ls ss rule: list_all2_induct) (auto simp: content_line_def)

lemma process_split_pieces:
  assumes "pieces = ls @ [[]] \<or> pieces = ls"
  shows "process_lines loads c e pieces st = process_lines loads c e ls st"
  using assms by (auto simp: process_lines_snoc handle_line_empty split: sum.splits)

lemma strip_quotes_split:
  "dropWhile (\<lambda>c. c = CHR 0x22) t =
     strip_quotes t
     @ rev (takeWhile (\<lambda>c. c = CHR 0x22) (rev (dropWhile (\<lambda>c. c = CHR 0x22) t)))"
proof -
  let ?P = "\<lambda>c. c = CHR 0x22"
  let ?u = "dropWhile ?P t"
  have "?u = rev (takeWhile ?P (rev ?u) @ dropWhile ?P (rev ?u))"
    by (simp only: takeWhile_dropWhile_id rev_rev_ident)
  then show ?thesis
    by (simp only: rev_append strip_quotes_def)
qed

lemma takeWhile_quotes: "takeWhile (\<lambda>c. c = x) xs = replicate (length (takeWhile (\<lambda>c. c = x) xs)) x"
  by (rule replicate_length_same [symmetric]) (auto dest: set_takeWhileD)

lemma strip_quotes_shape:
  "\<exists>a b. t = replicate a (CHR 0x22) @ strip_quotes t @ replicate b (CHR 0x22)"
proof -
  let ?P = "\<lambda>c. c = CHR 0x22"
  let ?u = "dropWhile ?P t"
  define a where "a = length (takeWhile ?P t)"
  define b where "b = length (takeWhile ?P (rev ?u))"
  have A: "takeWhile ?P t = replicate a (CHR 0x22)"
    unfolding a_def by (rule takeWhile_quotes)
  have "takeWhile ?P (rev ?u) = replicate b (CHR 0x22)"
    unfolding b_def by (rule takeWhile_quotes)
  then have B: "rev (takeWhile ?P (rev ?u)) = replicate b (CHR 0x22)"
    by (simp only: rev_replicate)
  have u: "?u = strip_quotes t @ replicate b (CHR 0x22)"
    by (rule trans [OF strip_quotes_split]) (simp only: B)
  have "takeWhile ?P t @ ?u = replicate a (CHR 0x22) @ strip_quotes t @ replicate b (CHR 0x22)"
    by (rule arg_cong2 [where f = "(@)", OF A u])
  then have "t = replicate a (CHR 0x22) @ strip_quotes t @ replicate b (CHR 0x22)"
    by (simp only: takeWhile_dropWhile_id)
  then show ?thesis by blast
qed

lemma strip_quotes_ends:
  assumes "strip_quotes t \<noteq> []"
  shows "hd (strip_quotes t) \<noteq> CHR 0x22 \<and> last (strip_quotes t) \<noteq> CHR 0x22"
proof -
  let ?P = "\<lambda>c. c = CHR 0x22"
  let ?u = "dropWhile ?P t"
  let ?v = "dropWhile ?P (rev ?u)"
  have s: "strip_quotes t = rev ?v" by (simp add: strip_quotes_def)
  have vne: "?v \<noteq> []" using assms by (simp add: strip_quotes_def)
  have "\<not> ?P (hd ?v)" using vne by (rule hd_dropWhile)
  then have "last (rev ?v) \<noteq> CHR 0x22" using vne by (simp add: last_rev)
  then have l: "last (strip_quotes t) \<noteq> CHR 0x22" by (simp add: s)
  have une: "?u \<noteq> []"
  proof
    assume e: "?u = []"
    have "strip_quotes t = rev (dropWhile ?P (rev ?u))" by (simp only: strip_quotes_def)
    also have "\<dots> = []" by (simp only: e rev.simps dropWhile.simps)
    finally show False using assms by simp
  qed
  have "\<not> ?P (hd ?u)" using une by (rule hd_dropWhile)
  moreover have "hd ?u = hd (strip_quotes t)"
    by (rule trans [OF arg_cong [where f = hd, OF strip_quotes_split]]) (rule hd_append2 [OF assms])
  ultimately have "hd (strip_quotes t) \<noteq> CHR 0x22" by simp
  then show ?thesis using l by simp
qed

text \<open>Bytes below 128 decode as they are.\<close>

lemma utf8_valid_ascii: "list_all (\<lambda>b. b < 0x80) bs \<Longrightarrow> utf8_valid bs"
  by (induction bs) auto

lemma scan_once_deep:
  "2 * d < n \<Longrightarrow> scan_once n d (replicate (Suc d) (CHR ''['') @ rest) = Inl RecursionError"
proof (induction d arbitrary: n)
  case 0
  then obtain m where "n = Suc m" by (cases n) auto
  then show ?case by simp
next
  case (Suc d)
  then obtain m where n: "n = Suc (Suc m)" and m: "2 * d < m"
    by (cases n; cases "n - 1") auto
  have "scan_once m d (replicate (Suc d) (CHR ''['') @ rest) = Inl RecursionError"
    using Suc.IH [OF m] .
  then show ?case
    using n by (simp add: skip_ws_def is_ws_def)
qed

subsection \<open>Content lines\<close>

text \<open>
  Claim C2, as stated, fails on the code in three ways.  The result is passed through
  \<open>strip('"')\<close>, so a content that begins or ends with a quote loses it.  Each chunk is
  decoded on its own, so a chunk boundary inside a multi-byte character raises
  \<open>UnicodeDecodeError\<close> and the decoder returns \<open>None\<close>.  And with \<open>stream_output\<close>,
  which is on unless the caller switches it off, an exception of the echo (here the
  \<open>ValueError\<close> of \<open>time.sleep\<close> for a negative delay) makes the decoder return
  \<open>None\<close>.
\<close>

theorem stream_response_concat_counterexample:
  \<open>list_all2 (content_line json_loads) [quoted_line] [[CHR 0x22] @ ''hi'' @ [CHR 0x22]]
   \<and> stream_response json_loads ex_client ex_env [Chunk (wire [quoted_line])] [] = Some ''hi''
   \<and> list_all2 (content_line json_loads) [accent_line] [[CHR 0xC3, CHR 0xA9]]
   \<and> concat accent_chunks = wire [accent_line]
   \<and> stream_response json_loads ex_client ex_env (map Chunk accent_chunks) [] = None
   \<and> list_all2 (content_line json_loads) hello_lines [''Hel'', ''lo'']
   \<and> stream_output ex_client
   \<and> stream_response json_loads ex_client (ex_env\<lparr>sleep := Some ValueError\<rparr>)
         [Chunk (wire hello_lines)] [] = None\<close>
  by code_simp

text \<open>
  Claim C2, amended: for every finite stream of content lines
  \<open>data: {"content": s_i}\<close>, each ended by a newline except possibly the last, for
  every way of cutting the stream into chunks that each decode as UTF-8 on their own,
  and with an echo that is switched off or raises nothing, the decoder returns the
  concatenation of all \<open>s_i\<close> in the order of arrival with every leading and trailing
  quote removed.
\<close>

theorem stream_response_concat:
  assumes "chunks_decodable chunks"
      and "list_all2 (content_line loads) lines contents"
      and "concat chunks = wire lines \<or> concat chunks = butlast (wire lines)"
      and "echo_succeeds c e contents"
  shows "stream_response loads c e (map Chunk chunks) [] = Some (strip_quotes (concat contents))"
proof -
  have nn: "\<forall>l \<in> set lines. CHR 0x0A \<notin> set l"
    using assms(2) by (rule content_lines_no_newline)
  have sp: "process_lines loads c e (split_nl (concat chunks)) ([], [])
              = process_lines loads c e lines ([], [])"
    using split_nl_wire_or_open [OF nn assms(3)] by (rule process_split_pieces)
  have "(case process_lines loads c e lines ([], []) of
           Inl err \<Rightarrow> Inl err
         | Inr st \<Rightarrow> finish c e st) = Inr (concat contents)"
    using assms(4)
    by (auto simp: process_content_lines [OF assms(2)] echo_succeeds_def finish_def
             split: sum.splits)
  then show ?thesis
    by (simp add: stream_response_def accumulate_chunks [OF assms(1)] sp)
qed

theorem stream_response_concat_witness:
  \<open>chunks_decodable hello_chunks
   \<and> list_all2 (content_line json_loads) hello_lines [''Hel'', ''lo'']
   \<and> concat hello_chunks = butlast (wire hello_lines)
   \<and> echo_succeeds ex_client ex_env [''Hel'', ''lo'']
   \<and> stream_response json_loads ex_client ex_env (map Chunk hello_chunks) [] = Some ''Hello''\<close>
proof -
  have h1: "chunks_decodable hello_chunks" by code_simp
  have h2: "list_all2 (content_line json_loads) hello_lines [''Hel'', ''lo'']" by code_simp
  have h3: "concat hello_chunks = butlast (wire hello_lines)" by code_simp
  have h4: "echo_succeeds ex_client ex_env [''Hel'', ''lo'']" by code_simp
  have "strip_quotes (concat [''Hel'', ''lo'']) = ''Hello''" by code_simp
  then show ?thesis
    using stream_response_concat [OF h1 h2 disjI2 [OF h3] h4] h1 h2 h3 h4 by simp
qed

subsection \<open>Stripped quotes\<close>

text \<open>
  Claim C7, as stated, fails on the code: \<open>strip('"')\<close> removes every quote at either
  end, not at most one.  The accumulated text \<open>""hi""\<close> gives \<open>hi\<close>.
\<close>

theorem stream_response_quotes_counterexample:
  \<open>accumulate json_loads ex_client ex_env [Chunk (wire [doubly_quoted_line])] []
     = Inr ([CHR 0x22, CHR 0x22] @ ''hi'' @ [CHR 0x22, CHR 0x22])
   \<and> stream_response json_loads ex_client ex_env [Chunk (wire [doubly_quoted_line])] []
       = Some ''hi''\<close>
  by code_simp

text \<open>
  Claim C7, amended: for every successfully decoded stream, the result is the
  accumulated text without all of its leading and all of its trailing quote characters:
  the accumulated text is the result between two runs of quotes, and the result neither
  begins nor ends with a quote.
\<close>

theorem stream_response_strips_every_quote:
  assumes "stream_response loads c e response init = Some r"
  shows "\<exists>t a b. accumulate loads c e response init = Inr t
           \<and> t = replicate a (CHR 0x22) @ r @ replicate b (CHR 0x22)
           \<and> (r \<noteq> [] \<longrightarrow> hd r \<noteq> CHR 0x22 \<and> last r \<noteq> CHR 0x22)"
proof -
  from assms obtain t where t: "accumulate loads c e response init = Inr t"
    and r: "r = strip_quotes t"
    by (auto simp: stream_response_def split: sum.splits)
  from strip_quotes_shape [of t] strip_quotes_ends [of t] t r show ?thesis by auto
qed

theorem stream_response_strips_every_quote_witness:
  \<open>stream_response json_loads ex_client ex_env [Chunk (wire [doubly_quoted_line])] []
     = Some ''hi''
   \<and> (\<exists>t a b. accumulate json_loads ex_client ex_env [Chunk (wire [doubly_quoted_line])] []
                  = Inr t
           \<and> t = replicate a (CHR 0x22) @ ''hi'' @ replicate b (CHR 0x22))\<close>
proof -
  have h: "stream_response json_loads ex_client ex_env [Chunk (wire [doubly_quoted_line])] []
             = Some ''hi''"
    by code_simp
  show ?thesis using stream_response_strips_every_quote [OF h] h by blast
qed

subsection \<open>Malformed lines\<close>

text \<open>
  Claim C8, as stated, fails on the code.  Only \<open>JSONDecodeError\<close> is caught for a
  line.  A line whose text is not valid JSON because it opens more arrays than the
  interpreter allows to nest makes \<open>json.loads\<close> raise \<open>RecursionError\<close>, which reaches
  the outer handler: the decoder returns \<open>None\<close>, and the content of the valid line
  after it is not decoded.
\<close>

theorem stream_response_deep_line_counterexample:
  \<open>startswith deep_line ''data: ''
   \<and> CHR 0x0A \<notin> set deep_line
   \<and> json_loads (drop 6 deep_line) = Inl RecursionError
   \<and> content_line json_loads ''data: {"content": "lo"}'' ''lo''
   \<and> stream_response json_loads ex_client ex_env
        [Chunk (wire [deep_line, ''data: {"content": "lo"}''])] [] = None\<close>
proof -
  let ?l2 = \<open>''data: {"content": "lo"}''\<close>
  have sw: "startswith deep_line ''data: ''"
    by (simp add: startswith_def deep_line_def)
  have nn: "CHR 0x0A \<notin> set deep_line"
    by (simp add: deep_line_def)
  have dr: "drop 6 deep_line = replicate (Suc 1000) (CHR ''['') @ []"
    by (simp add: deep_line_def)
  have so: "scan_once (2 * length (replicate (Suc 1000) (CHR ''['') @ []) + 2) 1000
              (replicate (Suc 1000) (CHR ''['') @ []) = Inl RecursionError"
    by (rule scan_once_deep) simp
  have sk: "skip_ws (replicate (Suc 1000) (CHR ''['') @ []) = replicate (Suc 1000) (CHR ''['') @ []"
    by (simp add: skip_ws_def is_ws_def)
  have bom: "\<not> startswith (replicate (Suc 1000) (CHR ''['') @ []) [CHR 0xEF, CHR 0xBB, CHR 0xBF]"
    by (simp add: startswith_def)
  have jl: "json_loads (drop 6 deep_line) = Inl RecursionError"
    by (simp only: dr json_loads_def json_loads_limit_def bom if_False sk so sum.case)
  have cl: "content_line json_loads ?l2 ''lo''" by code_simp
  have hl: "\<And>st. handle_line json_loads ex_client ex_env deep_line st = Inl RecursionError"
    using sw jl by (simp add: handle_line_def data_not_blank)
  have "list_all (\<lambda>b. b < 0x80) (map of_char (wire [deep_line, ?l2]) :: nat list)"
    by (simp add: wire_def deep_line_def list_all_iff)
  then have "utf8_valid (map of_char (wire [deep_line, ?l2]))" by (rule utf8_valid_ascii)
  then have cd: "chunks_decodable [wire [deep_line, ?l2]]" by (simp add: chunks_decodable_def)
  have "\<forall>l \<in> set [deep_line, ?l2]. CHR 0x0A \<notin> set l" using nn by simp
  then have sp: "split_nl (wire [deep_line, ?l2] @ []) = [deep_line, ?l2] @ split_nl []"
    by (rule split_nl_wire)
  have ac: "accumulate json_loads ex_client ex_env (map Chunk [wire [deep_line, ?l2]]) []
          = (case process_lines json_loads ex_client ex_env
                    (split_nl (concat [wire [deep_line, ?l2]])) ([], []) of
               Inl err \<Rightarrow> Inl err
             | Inr st \<Rightarrow> finish ex_client ex_env st)"
    by (rule accumulate_chunks [OF cd])
  have "process_lines json_loads ex_client ex_env
          (split_nl (concat [wire [deep_line, ?l2]])) ([], []) = Inl RecursionError"
    using sp by (simp add: hl)
  with ac have "accumulate json_loads ex_client ex_env (map Chunk [wire [deep_line, ?l2]]) []
          = Inl RecursionError"
    by simp
  then have "stream_response json_loads ex_client ex_env [Chunk (wire [deep_line, ?l2])] [] = None"
    by (simp add: stream_response_def)
  then show ?thesis using sw nn jl cl by simp
qed

text \<open>
  Claim C8, amended: for every stream containing a terminated line that starts with
  \<open>data: \<close> and on whose rest the JSON decoder raises \<open>JSONDecodeError\<close>, the decoder
  returns what it returns for the stream without that line, for every two ways of
  cutting the two streams into chunks that each decode as UTF-8 on their own: the line
  ends nothing and contributes nothing, and everything before and after it, valid lines
  and others, is handled as if the line were absent.
\<close>

theorem stream_response_skips_malformed:
  assumes "chunks_decodable chunks"
      and "chunks_decodable chunks'"
      and "malformed_line loads bad"
      and "list_all (\<lambda>l. CHR 0x0A \<notin> set l) before"
      and "concat chunks = wire before @ bad @ CHR 0x0A # rest"
      and "concat chunks' = wire before @ rest"
  shows "stream_response loads c e (map Chunk chunks) init
           = stream_response loads c e (map Chunk chunks') init"
proof -
  have nb: "\<forall>l \<in> set before. CHR 0x0A \<notin> set l"
    using assms(4) by (simp add: list_all_iff)
  have nbad: "CHR 0x0A \<notin> set bad" using assms(3) by (simp add: malformed_line_def)
  have s1: "split_nl (concat chunks) = before @ bad # split_nl rest"
    using split_nl_wire [OF nb, of "bad @ CHR 0x0A # rest"] split_nl_line [OF nbad, of rest]
    by (simp add: assms(5))
  have s2: "split_nl (concat chunks') = before @ split_nl rest"
    using split_nl_wire [OF nb, of rest] by (simp add: assms(6))
  have "process_lines loads c e (before @ bad # split_nl rest) (init, [])
          = process_lines loads c e (before @ split_nl rest) (init, [])"
    by (simp add: process_lines_append handle_malformed_line [OF assms(3)] cong: sum.case_cong)
  then have "accumulate loads c e (map Chunk chunks) init
               = accumulate loads c e (map Chunk chunks') init"
    by (simp add: accumulate_chunks [OF assms(1)] accumulate_chunks [OF assms(2)] s1 s2)
  then show ?thesis by (simp add: stream_response_def)
qed

theorem stream_response_skips_malformed_witness:
  \<open>chunks_decodable [''data: {"content": "Hel"}\<newline>da'', ''ta: {"content": "lost\<newline>data: {"content": "lo"}'']
   \<and> chunks_decodable [''data: {"content": "Hel"}\<newline>data: {"content": "lo"}'']
   \<and> malformed_line json_loads cut_line
   \<and> list_all (\<lambda>l. CHR 0x0A \<notin> set l) [''data: {"content": "Hel"}'']
   \<and> concat [''data: {"content": "Hel"}\<newline>da'', ''ta: {"content": "lost\<newline>data: {"content": "lo"}'']
       = wire [''data: {"content": "Hel"}''] @ cut_line @ CHR 0x0A # ''data: {"content": "lo"}''
   \<and> concat [''data: {"content": "Hel"}\<newline>data: {"content": "lo"}'']
       = wire [''data: {"content": "Hel"}''] @ ''data: {"content": "lo"}''
   \<and> stream_response json_loads ex_client ex_env
        (map Chunk [''data: {"content": "Hel"}\<newline>da'', ''ta: {"content": "lost\<newline>data: {"content": "lo"}'']) []
       = Some ''Hello''
   \<and> stream_response json_loads ex_client ex_env
        (map Chunk [''data: {"content": "Hel"}\<newline>data: {"content": "lo"}'']) []
       = Some ''Hello''\<close>
proof -
  let ?chunks = \<open>[''data: {"content": "Hel"}\<newline>da'', ''ta: {"content": "lost\<newline>data: {"content": "lo"}'']\<close>
  let ?chunks' = \<open>[''data: {"content": "Hel"}\<newline>data: {"content": "lo"}'']\<close>
  have h1: "chunks_decodable ?chunks" by code_simp
  have h2: "chunks_decodable ?chunks'" by code_simp
  have h3: "malformed_line json_loads cut_line" by code_simp
  have h4: \<open>list_all (\<lambda>l. CHR 0x0A \<notin> set l) [''data: {"content": "Hel"}'']\<close> by code_simp
  have h5: \<open>concat ?chunks
       = wire [''data: {"content": "Hel"}''] @ cut_line @ CHR 0x0A # ''data: {"content": "lo"}''\<close>
    by code_simp
  have h6: \<open>concat ?chunks'
       = wire [''data: {"content": "Hel"}''] @ ''data: {"content": "lo"}''\<close>
    by code_simp
  have r: "stream_response json_loads ex_client ex_env (map Chunk ?chunks') [] = Some ''Hello''"
    by code_simp
  show ?thesis
    using stream_response_skips_malformed
            [OF h1 h2 h3 h4 h5 h6, where c = ex_client and e = ex_env and init = "[]"]
          h1 h2 h3 h4 h5 h6 r
    by simp
qed

section \<open>Properties of the persistence\<close>

lemma save_history_written:
  assumes "save_to c = Some dir" and "\<not> write_error e" and "h = m # rest"
      and "fs (file_path dir (msg_id m)) = Some f" and "merge_existing f h = Inr h'"
  shows "fst (save_history c e fs h) = fs(file_path dir (msg_id m) \<mapsto> HistoryFile h')"
  using assms by (simp add: save_history_def)

text \<open>
  Claim C4: when the file of the history parses to a list of \<open>N\<close> messages and the
  history in memory has \<open>N + k\<close> messages, \<open>k > 0\<close>, of which the first \<open>N\<close> are those
  of the file, saving writes the \<open>N\<close> existing messages followed by exactly the last
  \<open>k\<close> messages of the history in memory; the written list is the history in memory, so
  no message is written twice.  The file is written whenever the directory and the file
  can be opened.
\<close>

theorem save_history_appends_new_messages:
  assumes "save_to c = Some dir"
      and "\<not> write_error e"
      and "h = m # rest"
      and "fs (file_path dir (msg_id m)) = Some (HistoryFile existing)"
      and "length h = length existing + k"
      and "0 < k"
      and "take (length existing) h = existing"
  shows "fst (save_history c e fs h)
           = fs(file_path dir (msg_id m) \<mapsto> HistoryFile (existing @ drop (length h - k) h))
         \<and> existing @ drop (length h - k) h = h
         \<and> length (drop (length h - k) h) = k"
proof -
  have n: "length h - k = length existing" using assms(5) by simp
  have d: "drop (length existing) h \<noteq> []" using assms(5,6) by simp
  have "merge_existing (HistoryFile existing) h = Inr (existing @ drop (length existing) h)"
    using d by (simp add: Let_def)
  then have "fst (save_history c e fs h)
      = fs(file_path dir (msg_id m) \<mapsto> HistoryFile (existing @ drop (length existing) h))"
    using assms(1,2,3,4) by (simp add: save_history_written)
  moreover have "existing @ drop (length existing) h = h"
    using append_take_drop_id [of "length existing" h] assms(7) by simp
  moreover have "length (drop (length existing) h) = k" using assms(5) by simp
  ultimately show ?thesis by (simp only: n) 
qed

theorem save_history_appends_new_messages_witness:
  "save_to ex_client = Some ''outputs/mindful''
   \<and> \<not> write_error ex_env
   \<and> [ex_path \<mapsto> HistoryFile [ex_system, ex_user]] (file_path ''outputs/mindful'' (msg_id ex_system))
       = Some (HistoryFile [ex_system, ex_user])
   \<and> length [ex_system, ex_user, ex_assistant, ex_user2] = length [ex_system, ex_user] + 2
   \<and> take (length [ex_system, ex_user]) [ex_system, ex_user, ex_assistant, ex_user2]
       = [ex_system, ex_user]
   \<and> fst (save_history ex_client ex_env [ex_path \<mapsto> HistoryFile [ex_system, ex_user]]
            [ex_system, ex_user, ex_assistant, ex_user2]) ex_path
       = Some (HistoryFile [ex_system, ex_user, ex_assistant, ex_user2])"
proof -
  have p: "file_path ''outputs/mindful'' (msg_id ex_system) = ex_path" by code_simp
  have h1: "save_to ex_client = Some ''outputs/mindful''" by (simp add: ex_client_def)
  have h2: "\<not> write_error ex_env" by (simp add: ex_env_def)
  have h4: "[ex_path \<mapsto> HistoryFile [ex_system, ex_user]]
              (file_path ''outputs/mindful'' (msg_id ex_system))
            = Some (HistoryFile [ex_system, ex_user])" by (simp add: p)
  have h5: "length [ex_system, ex_user, ex_assistant, ex_user2]
              = length [ex_system, ex_user] + 2" by simp
  have h7: "take (length [ex_system, ex_user]) [ex_system, ex_user, ex_assistant, ex_user2]
              = [ex_system, ex_user]" by simp
  show ?thesis
    using save_history_appends_new_messages
            [where c = ex_client and e = ex_env and dir = "''outputs/mindful''"
               and fs = "[ex_path \<mapsto> HistoryFile [ex_system, ex_user]]"
               and h = "[ex_system, ex_user, ex_assistant, ex_user2]"
               and m = ex_system and rest = "[ex_user, ex_assistant, ex_user2]"
               and existing = "[ex_system, ex_user]" and k = 2]
          h1 h2 h4 h5 h7
    by (simp add: p)
qed

text \<open>
  Claim C10, as stated, fails on the code.  The merged list replaces the variable
  \<open>history\<close> only inside \<open>if new_messages\<close>; when the file is at least as long as the
  history in memory there is no new message, the variable keeps the history in memory,
  and that is what is written.  A file of three messages and a history of one message
  leave a file of one message.
\<close>

theorem save_history_shorter_counterexample:
  "[ex_path \<mapsto> HistoryFile [ex_system, ex_user, ex_assistant]]
       (file_path ''outputs/mindful'' (msg_id ex_system))
     = Some (HistoryFile [ex_system, ex_user, ex_assistant])
   \<and> length [ex_system] \<le> length [ex_system, ex_user, ex_assistant]
   \<and> fst (save_history ex_client ex_env
            [ex_path \<mapsto> HistoryFile [ex_system, ex_user, ex_assistant]] [ex_system]) ex_path
       = Some (HistoryFile [ex_system])
   \<and> [ex_system] \<noteq> [ex_system, ex_user, ex_assistant]"
proof -
  have p: "file_path ''outputs/mindful'' (msg_id ex_system) = ex_path" by code_simp
  show ?thesis
    by (simp add: p save_history_def ex_client_def ex_env_def Let_def)
qed

text \<open>
  Claim C10, amended: for every save where the existing file parses to a list whose
  length \<open>N\<close> is at least the length of the history in memory, the file is rewritten
  with exactly the history in memory; the \<open>N\<close> existing messages are not compared with
  it and are not kept, so a history in memory that differs from the file or is shorter
  replaces the content of the file.
\<close>

theorem save_history_no_new_messages:
  assumes "save_to c = Some dir"
      and "\<not> write_error e"
      and "h = m # rest"
      and "fs (file_path dir (msg_id m)) = Some (HistoryFile existing)"
      and "length h \<le> length existing"
  shows "fst (save_history c e fs h) = fs(file_path dir (msg_id m) \<mapsto> HistoryFile h)"
proof -
  have "merge_existing (HistoryFile existing) h = Inr h"
    using assms(5) by (simp add: Let_def)
  then show ?thesis using assms(1,2,3,4) by (simp add: save_history_written)
qed

theorem save_history_no_new_messages_witness:
  "save_to ex_client = Some ''outputs/mindful''
   \<and> \<not> write_error ex_env
   \<and> [ex_path \<mapsto> HistoryFile [ex_system, ex_user, ex_assistant]]
         (file_path ''outputs/mindful'' (msg_id ex_system))
       = Some (HistoryFile [ex_system, ex_user, ex_assistant])
   \<and> length [ex_system, ex_user2] \<le> length [ex_system, ex_user, ex_assistant]
   \<and> fst (save_history ex_client ex_env
            [ex_path \<mapsto> HistoryFile [ex_system, ex_user, ex_assistant]] [ex_system, ex_user2])
          ex_path
       = Some (HistoryFile [ex_system, ex_user2])"
proof -
  have p: "file_path ''outputs/mindful'' (msg_id ex_system) = ex_path" by code_simp
  have h1: "save_to ex_client = Some ''outputs/mindful''" by (simp add: ex_client_def)
  have h2: "\<not> write_error ex_env" by (simp add: ex_env_def)
  have h4: "[ex_path \<mapsto> HistoryFile [ex_system, ex_user, ex_assistant]]
              (file_path ''outputs/mindful'' (msg_id ex_system))
            = Some (HistoryFile [ex_system, ex_user, ex_assistant])" by (simp add: p)
  have h5: "length [ex_system, ex_user2] \<le> length [ex_system, ex_user, ex_assistant]" by simp
  show ?thesis
    using save_history_no_new_messages
            [where c = ex_client and e = ex_env and dir = "''outputs/mindful''"
               and fs = "[ex_path \<mapsto> HistoryFile [ex_system, ex_user, ex_assistant]]"
               and h = "[ex_system, ex_user2]" and m = ex_system and rest = "[ex_user2]"
               and existing = "[ex_system, ex_user, ex_assistant]"]
          h1 h2 h4 h5
    by (simp add: p)
qed

section \<open>Properties of a turn\<close>

subsection \<open>The stages of \<open>get_completions\<close>\<close>

text \<open>
  What the call returns, by the stage at which it ends.  The session-state step never
  returns an empty list, so the assignment of \<open>task_id\<close> cannot fail.
\<close>

lemma start_or_continue_nonempty:
  "start_or_continue c fresh hist agent instruction = Inr h0 \<Longrightarrow> h0 \<noteq> []"
  by (auto simp: start_or_continue_def split: sum.splits option.splits list.splits if_splits)

lemma get_completions_start_fails:
  "start_or_continue c (fresh_task_id e) hist agent instruction = Inl err \<Longrightarrow>
   get_completions loads c e fs prompt image_path hist agent instruction = (None, hist, fs)"
  by (simp add: get_completions_def)

lemma get_completions_upload_fails:
  "start_or_continue c (fresh_task_id e) hist agent instruction = Inr (m0 # rest) \<Longrightarrow>
   message_content (upload_image e) prompt image_path = Inl err \<Longrightarrow>
   get_completions loads c e fs prompt image_path hist agent instruction
     = (None, Some (m0 # rest), fs)"
  by (simp add: get_completions_def)

lemma get_completions_post_fails:
  "start_or_continue c (fresh_task_id e) hist agent instruction = Inr (m0 # rest) \<Longrightarrow>
   message_content (upload_image e) prompt image_path = Inr parts \<Longrightarrow>
   post e = Inl err \<Longrightarrow>
   get_completions loads c e fs prompt image_path hist agent instruction
     = (None, Some ((m0 # rest) @ [user_message c (msg_id m0) parts]), fs)"
  by (simp add: get_completions_def)

lemma get_completions_answered:
  "start_or_continue c (fresh_task_id e) hist agent instruction = Inr (m0 # rest) \<Longrightarrow>
   message_content (upload_image e) prompt image_path = Inr parts \<Longrightarrow>
   post e = Inr response \<Longrightarrow>
   h2 = (m0 # rest) @ [user_message c (msg_id m0) parts,
                       assistant_message c (msg_id m0) (stream_response loads c e response [])] \<Longrightarrow>
   get_completions loads c e fs prompt image_path hist agent instruction
     = (if snd (save_history c e fs h2) = None then stream_response loads c e response [] else None,
        Some h2, fst (save_history c e fs h2))"
  by (simp add: get_completions_def Let_def split: prod.splits option.splits)

lemma get_completions_history_cases:
  assumes "start_or_continue c (fresh_task_id e) hist agent instruction = Inr (m0 # rest)"
  shows "\<exists>turn. fst (snd (get_completions loads c e fs prompt image_path hist agent instruction))
                  = Some ((m0 # rest) @ turn)
              \<and> list_all (\<lambda>x. msg_id x = msg_id m0) turn"
proof (cases "message_content (upload_image e) prompt image_path")
  case (Inl err)
  then show ?thesis using get_completions_upload_fails [OF assms Inl] by simp
next
  case (Inr parts)
  show ?thesis
  proof (cases "post e")
    case (Inl err)
    show ?thesis
      using get_completions_post_fails [OF assms Inr Inl]
      by (simp add: user_message_def)
  next
    case r: (Inr response)
    show ?thesis
      using get_completions_answered [OF assms Inr r refl]
      by (simp add: user_message_def assistant_message_def)
  qed
qed

lemma upload_all_ok:
  "map up ps = map Inr urls \<Longrightarrow> upload_all up ps = Inr (map image_part urls)"
proof (induction ps arbitrary: urls)
  case Nil
  then show ?case by simp
next
  case (Cons p ps)
  then obtain u us where "urls = u # us" by (cases urls) auto
  with Cons show ?case by auto
qed

lemma history_invariant_append:
  "history_invariant (m0 # rest) \<Longrightarrow> list_all (\<lambda>x. msg_id x = msg_id m0) turn \<Longrightarrow>
   history_invariant ((m0 # rest) @ turn)"
  by (simp add: history_invariant_def)

lemma start_or_continue_invariant:
  assumes "case hist of None \<Rightarrow> True | Some h \<Rightarrow> history_invariant h"
      and "start_or_continue c fresh hist agent instruction = Inr h0"
  shows "history_invariant h0"
  using assms
  by (auto simp: start_or_continue_def history_invariant_def system_message_def list_all_iff
           split: sum.splits option.splits list.splits if_splits)

subsection \<open>Session state\<close>

text \<open>
  Claim C3: let \<open>system_prompt\<close> be the prompt computed for the requested agent and
  instruction.  Without a history (\<open>None\<close> or the empty list) the new history is one
  system message with the freshly generated identifier.  With a history whose first
  message has another content, the new history is a system message with the identifier
  of the old first message, followed by exactly the messages of role \<open>user\<close> or
  \<open>assistant\<close> that come after the old first message, in their order.  With a history
  whose first message has that content, the given history is kept as it is.  The history
  that \<open>get_completions\<close> returns begins with this list; the messages of the turn
  follow it.
\<close>

theorem start_or_continue_rule:
  assumes "get_agent c (requested_agent agent instruction)
             (requested_instruction agent instruction) = Inr system_prompt"
  shows "((hist = None \<or> hist = Some []) \<longrightarrow>
            start_or_continue c (fresh_task_id e) hist agent instruction
              = Inr [\<lparr>msg_id = fresh_task_id e, role = ''system'',
                     content = Text system_prompt, model = model_id c\<rparr>])
       \<and> (\<forall>m rest. hist = Some (m # rest) \<and> content m \<noteq> Text system_prompt \<longrightarrow>
            start_or_continue c (fresh_task_id e) hist agent instruction
              = Inr (\<lparr>msg_id = msg_id m, role = ''system'',
                      content = Text system_prompt, model = model_id c\<rparr>
                    # filter (\<lambda>msg. role msg = ''user'' \<or> role msg = ''assistant'') rest))
       \<and> (\<forall>m rest. hist = Some (m # rest) \<and> content m = Text system_prompt \<longrightarrow>
            start_or_continue c (fresh_task_id e) hist agent instruction = Inr (m # rest))
       \<and> (\<exists>h0 turn. start_or_continue c (fresh_task_id e) hist agent instruction = Inr h0
            \<and> fst (snd (get_completions loads c e fs prompt image_path hist agent instruction))
                = Some (h0 @ turn))"
proof -
  have a: "(hist = None \<or> hist = Some []) \<longrightarrow>
            start_or_continue c (fresh_task_id e) hist agent instruction
              = Inr [\<lparr>msg_id = fresh_task_id e, role = ''system'',
                     content = Text system_prompt, model = model_id c\<rparr>]"
    using assms
    by (auto simp: start_or_continue_def system_message_def conversation_role_def [abs_def])
  have b: "\<forall>m rest. hist = Some (m # rest) \<and> content m \<noteq> Text system_prompt \<longrightarrow>
            start_or_continue c (fresh_task_id e) hist agent instruction
              = Inr (\<lparr>msg_id = msg_id m, role = ''system'',
                      content = Text system_prompt, model = model_id c\<rparr>
                    # filter (\<lambda>msg. role msg = ''user'' \<or> role msg = ''assistant'') rest)"
    using assms
    by (auto simp: start_or_continue_def system_message_def conversation_role_def [abs_def])
  have c: "\<forall>m rest. hist = Some (m # rest) \<and> content m = Text system_prompt \<longrightarrow>
            start_or_continue c (fresh_task_id e) hist agent instruction = Inr (m # rest)"
    using assms
    by (auto simp: start_or_continue_def system_message_def conversation_role_def [abs_def])
  have "\<exists>h0. start_or_continue c (fresh_task_id e) hist agent instruction = Inr h0"
  proof (cases hist)
    case None
    then show ?thesis using a by simp
  next
    case (Some h)
    show ?thesis
    proof (cases h)
      case Nil
      with Some a show ?thesis by simp
    next
      case (Cons m rest)
      with Some b c show ?thesis by (cases "content m = Text system_prompt") auto
    qed
  qed
  then obtain h0 where h0: "start_or_continue c (fresh_task_id e) hist agent instruction = Inr h0"
    by blast
  then obtain m0 rest0 where "h0 = m0 # rest0"
    using start_or_continue_nonempty [OF h0] by (cases h0) auto
  then have "\<exists>turn. fst (snd (get_completions loads c e fs prompt image_path hist agent instruction))
                  = Some (h0 @ turn)"
    using get_completions_history_cases [of c e hist agent instruction m0 rest0] h0 by blast
  with h0 have d: "\<exists>h0 turn. start_or_continue c (fresh_task_id e) hist agent instruction = Inr h0
            \<and> fst (snd (get_completions loads c e fs prompt image_path hist agent instruction))
                = Some (h0 @ turn)" by blast
  from a b c d show ?thesis by blast
qed

theorem start_or_continue_rule_witness:
  "get_agent ex_client (requested_agent ''default'' None) (requested_instruction ''default'' None)
     = Inr ''You are a helpful assistant.''
   \<and> start_or_continue ex_client (fresh_task_id ex_env) None ''default'' None = Inr [ex_system]
   \<and> start_or_continue ex_client (fresh_task_id ex_env) (Some [ex_system, ex_user, ex_assistant])
         ''default'' None = Inr [ex_system, ex_user, ex_assistant]
   \<and> get_agent ex_client (requested_agent ''default'' (Some ''Be brief.''))
         (requested_instruction ''default'' (Some ''Be brief.'')) = Inr ''Be brief.''
   \<and> content ex_system \<noteq> Text ''Be brief.''
   \<and> start_or_continue ex_client (fresh_task_id ex_env)
         (Some [ex_system, ex_user, ex_tool, ex_assistant]) ''default'' (Some ''Be brief.'')
       = Inr [\<lparr>msg_id = ex_task_id, role = ''system'', content = Text ''Be brief.'',
                model = ''omni-1''\<rparr>, ex_user, ex_assistant]"
proof -
  have g1: "get_agent ex_client (requested_agent ''default'' None)
              (requested_instruction ''default'' None) = Inr ''You are a helpful assistant.''"
    by code_simp
  have g2: "get_agent ex_client (requested_agent ''default'' (Some ''Be brief.''))
              (requested_instruction ''default'' (Some ''Be brief.'')) = Inr ''Be brief.''"
    by code_simp
  have f: "fresh_task_id ex_env = ex_task_id" by (simp add: ex_env_def)
  have c1: "content ex_system = Text ''You are a helpful assistant.''"
    by (simp add: ex_system_def system_message_def)
  have c2: "content ex_system \<noteq> Text ''Be brief.''"
    by (simp add: ex_system_def system_message_def)
  have m: "msg_id ex_system = ex_task_id" by (simp add: ex_system_def system_message_def)
  have fl: "filter (\<lambda>msg. role msg = ''user'' \<or> role msg = ''assistant'')
              [ex_user, ex_tool, ex_assistant] = [ex_user, ex_assistant]"
    by code_simp
  have mo: "model_id ex_client = ''omni-1''" by (simp add: ex_client_def)
  have r1: "start_or_continue ex_client (fresh_task_id ex_env) None ''default'' None
              = Inr [ex_system]"
    using start_or_continue_rule [OF g1, where hist = None and e = ex_env] f
    by (simp add: ex_system_def system_message_def)
  have r2: "start_or_continue ex_client (fresh_task_id ex_env)
              (Some [ex_system, ex_user, ex_assistant]) ''default'' None
              = Inr [ex_system, ex_user, ex_assistant]"
    using start_or_continue_rule
            [OF g1, where hist = "Some [ex_system, ex_user, ex_assistant]" and e = ex_env] c1
    by simp
  have r3: "start_or_continue ex_client (fresh_task_id ex_env)
              (Some [ex_system, ex_user, ex_tool, ex_assistant]) ''default'' (Some ''Be brief.'')
              = Inr [\<lparr>msg_id = ex_task_id, role = ''system'', content = Text ''Be brief.'',
                model = ''omni-1''\<rparr>, ex_user, ex_assistant]"
    using start_or_continue_rule
            [OF g2, where hist = "Some [ex_system, ex_user, ex_tool, ex_assistant]"
               and e = ex_env] c2 m fl mo
    by simp
  show ?thesis using g1 g2 c2 r1 r2 r3 by simp
qed

subsection \<open>The user message\<close>

text \<open>
  Claim C5, as stated, fails on the code in the shape of an image part: the reference
  is not a member \<open>url\<close> of the part but is nested under the member \<open>file_url\<close>.
  The part appended for \<open>cat.png\<close> is
  \<open>{"type": "image_url", "file_url": {"url": ...}}\<close>; it has no member \<open>url\<close>.
\<close>

theorem image_part_shape_counterexample:
  "fst (snd (get_completions json_loads ex_client ex_env Map.empty ''what is this?''
               (OnePath ''cat.png'') None ''default'' None))
     = Some [ex_system,
             \<lparr>msg_id = ex_task_id, role = ''user'',
              content = Parts [JObject [(''type'', JString ''text''),
                                        (''text'', JString ''what is this?'')],
                               JObject [(''type'', JString ''image_url''),
                                        (''file_url'',
                                         JObject [(''url'', JString ''https://files.example/cat'')])]],
              model = ''omni-1''\<rparr>,
             assistant_message ex_client ex_task_id (Some ''Hello'')]
   \<and> JObject [(''type'', JString ''image_url''),
               (''file_url'', JObject [(''url'', JString ''https://files.example/cat'')])]
       \<noteq> JObject [(''type'', JString ''image_url''),
                  (''url'', JString ''https://files.example/cat'')]
   \<and> dict_get [(''type'', JString ''image_url''),
                (''file_url'', JObject [(''url'', JString ''https://files.example/cat'')])]
         ''url'' = None"
  by code_simp

text \<open>
  Claim C5, amended: when the text is not empty and every upload returns a reference,
  the message appended after the history of the session-state step has the role
  \<open>user\<close> and the identifier of the first message, and its content is an ordered list
  whose first element is the part \<open>{type: text, text: prompt}\<close>, followed by one part
  of the shape \<open>{type: image_url, file_url: {url: reference}}\<close> for each path, with the
  uploaded references in the order of the paths.
\<close>

theorem user_message_content_order:
  assumes "start_or_continue c (fresh_task_id e) hist agent instruction = Inr (m0 # rest)"
      and "prompt \<noteq> []"
      and "map (upload_image e) (image_paths image_path) = map (\<lambda>u. Inr (Some u)) urls"
  shows "\<exists>user_msg after.
           fst (snd (get_completions loads c e fs prompt image_path hist agent instruction))
             = Some ((m0 # rest) @ user_msg # after)
           \<and> role user_msg = ''user''
           \<and> msg_id user_msg = msg_id m0
           \<and> content user_msg
               = Parts (JObject [(''type'', JString ''text''), (''text'', JString prompt)]
                        # map (\<lambda>u. JObject [(''type'', JString ''image_url''),
                                            (''file_url'', JObject [(''url'', JString u)])])
                            urls)"
proof -
  let ?parts = "JObject [(''type'', JString ''text''), (''text'', JString prompt)]
                # map (\<lambda>u. JObject [(''type'', JString ''image_url''),
                                    (''file_url'', JObject [(''url'', JString u)])]) urls"
  have "map (upload_image e) (image_paths image_path) = map Inr (map Some urls)"
    using assms(3) by simp
  then have "upload_all (upload_image e) (image_paths image_path)
               = Inr (map image_part (map Some urls))"
    by (rule upload_all_ok)
  then have mc: "message_content (upload_image e) prompt image_path = Inr ?parts"
    using assms(2) by (simp add: message_content_def text_part_def image_part_def comp_def)
  have um: "role (user_message c (msg_id m0) ?parts) = ''user''
            \<and> msg_id (user_message c (msg_id m0) ?parts) = msg_id m0
            \<and> content (user_message c (msg_id m0) ?parts) = Parts ?parts"
    by (simp add: user_message_def)
  show ?thesis
  proof (cases "post e")
    case (Inl err)
    have "fst (snd (get_completions loads c e fs prompt image_path hist agent instruction))
            = Some ((m0 # rest) @ user_message c (msg_id m0) ?parts # [])"
      using get_completions_post_fails [OF assms(1) mc Inl] by simp
    with um show ?thesis by blast
  next
    case (Inr response)
    have "fst (snd (get_completions loads c e fs prompt image_path hist agent instruction))
            = Some ((m0 # rest) @ user_message c (msg_id m0) ?parts
                    # [assistant_message c (msg_id m0) (stream_response loads c e response [])])"
      using get_completions_answered [OF assms(1) mc Inr refl] by simp
    with um show ?thesis by blast
  qed
qed

theorem user_message_content_order_witness:
  "start_or_continue ex_client (fresh_task_id ex_env) None ''default'' None = Inr [ex_system]
   \<and> map (upload_image ex_env) (image_paths (PathList [''cat.png'', ''dog.png'']))
       = map (\<lambda>u. Inr (Some u)) [''https://files.example/cat'', ''https://files.example/dog'']
   \<and> (\<exists>user_msg after.
         fst (snd (get_completions json_loads ex_client ex_env Map.empty ''what is this?''
                     (PathList [''cat.png'', ''dog.png'']) None ''default'' None))
           = Some ([ex_system] @ user_msg # after)
         \<and> role user_msg = ''user''
         \<and> msg_id user_msg = ex_task_id
         \<and> content user_msg
             = Parts [JObject [(''type'', JString ''text''), (''text'', JString ''what is this?'')],
                      JObject [(''type'', JString ''image_url''),
                               (''file_url'', JObject [(''url'', JString ''https://files.example/cat'')])],
                      JObject [(''type'', JString ''image_url''),
                               (''file_url'', JObject [(''url'', JString ''https://files.example/dog'')])]])"
proof -
  have s: "start_or_continue ex_client (fresh_task_id ex_env) None ''default'' None
             = Inr [ex_system]"
    by code_simp
  have u: "map (upload_image ex_env) (image_paths (PathList [''cat.png'', ''dog.png'']))
       = map (\<lambda>u. Inr (Some u)) [''https://files.example/cat'', ''https://files.example/dog'']"
    by code_simp
  have p: "''what is this?'' \<noteq> []" by simp
  have m: "msg_id ex_system = ex_task_id" by (simp add: ex_system_def system_message_def)
  show ?thesis
    using user_message_content_order [OF s p u, where loads = json_loads and fs = Map.empty] s u m
    by simp
qed

text \<open>
  Claim C6, as stated, fails on the code: \<open>get_completions\<close> has no check of an empty
  turn.  With an empty text and no image the call appends a user message with an empty
  content list, sends the request and returns the reply.  (The interactive loop does not
  call it for an empty input line.)
\<close>

theorem empty_turn_counterexample:
  "fst (get_completions json_loads ex_client ex_env Map.empty [] NoImage None ''default'' None)
     = Some ''Hello''
   \<and> fst (snd (get_completions json_loads ex_client ex_env Map.empty [] NoImage None
                  ''default'' None))
     = Some [ex_system,
             \<lparr>msg_id = ex_task_id, role = ''user'', content = Parts [], model = ''omni-1''\<rparr>,
             assistant_message ex_client ex_task_id (Some ''Hello'')]"
  by code_simp

text \<open>
  Claim C6, amended: for every call with an empty text and an empty image list, the
  operation does not fail on that account: it appends a user message whose content is
  the empty list, sends the request, and returns the decoded reply when the request is
  answered and the save succeeds.
\<close>

theorem empty_turn_is_sent:
  assumes "start_or_continue c (fresh_task_id e) hist agent instruction = Inr (m0 # rest)"
      and "prompt = []"
      and "image_paths image_path = []"
  shows "message_content (upload_image e) prompt image_path = Inr []
       \<and> (\<exists>after. fst (snd (get_completions loads c e fs prompt image_path hist agent instruction))
             = Some ((m0 # rest)
                     @ \<lparr>msg_id = msg_id m0, role = ''user'', content = Parts [],
                        model = model_id c\<rparr> # after))
       \<and> (\<forall>response. post e = Inr response
             \<and> snd (save_history c e fs
                      ((m0 # rest) @ [user_message c (msg_id m0) [],
                         assistant_message c (msg_id m0) (stream_response loads c e response [])]))
                 = None \<longrightarrow>
            fst (get_completions loads c e fs prompt image_path hist agent instruction)
              = stream_response loads c e response [])"
proof -
  have mc: "message_content (upload_image e) prompt image_path = Inr []"
    using assms(2,3) by (simp add: message_content_def)
  have "\<exists>after. fst (snd (get_completions loads c e fs prompt image_path hist agent instruction))
             = Some ((m0 # rest)
                     @ \<lparr>msg_id = msg_id m0, role = ''user'', content = Parts [],
                        model = model_id c\<rparr> # after)"
  proof (cases "post e")
    case (Inl err)
    show ?thesis
      using get_completions_post_fails [OF assms(1) mc Inl] by (simp add: user_message_def)
  next
    case (Inr response)
    show ?thesis
      using get_completions_answered [OF assms(1) mc Inr refl] by (simp add: user_message_def)
  qed
  moreover have "\<forall>response. post e = Inr response
             \<and> snd (save_history c e fs
                      ((m0 # rest) @ [user_message c (msg_id m0) [],
                         assistant_message c (msg_id m0) (stream_response loads c e response [])]))
                 = None \<longrightarrow>
            fst (get_completions loads c e fs prompt image_path hist agent instruction)
              = stream_response loads c e response []"
    using get_completions_answered [OF assms(1) mc _ refl] by auto
  ultimately show ?thesis using mc by blast
qed

theorem empty_turn_is_sent_witness:
  "start_or_continue ex_client (fresh_task_id ex_env) None ''default'' None = Inr [ex_system]
   \<and> image_paths (PathList []) = []
   \<and> message_content (upload_image ex_env) [] (PathList []) = Inr []
   \<and> (\<exists>after. fst (snd (get_completions json_loads ex_client ex_env Map.empty []
                          (PathList []) None ''default'' None))
         = Some ([ex_system]
                 @ \<lparr>msg_id = ex_task_id, role = ''user'', content = Parts [],
                    model = ''omni-1''\<rparr> # after))
   \<and> fst (get_completions json_loads ex_client ex_env Map.empty [] (PathList []) None
            ''default'' None) = Some ''Hello''"
proof -
  have s: "start_or_continue ex_client (fresh_task_id ex_env) None ''default'' None
             = Inr [ex_system]"
    by code_simp
  have i: "image_paths (PathList []) = []" by simp
  have m: "msg_id ex_system = ex_task_id" by (simp add: ex_system_def system_message_def)
  have mo: "model_id ex_client = ''omni-1''" by (simp add: ex_client_def)
  have po: "post ex_env = Inr [Chunk (wire hello_lines)]" by (simp add: ex_env_def)
  have sr: "stream_response json_loads ex_client ex_env [Chunk (wire hello_lines)] []
              = Some ''Hello''"
    by code_simp
  have sv: "snd (save_history ex_client ex_env Map.empty
                  ([ex_system] @ [user_message ex_client (msg_id ex_system) [],
                     assistant_message ex_client (msg_id ex_system)
                       (stream_response json_loads ex_client ex_env
                          [Chunk (wire hello_lines)] [])])) = None"
    by code_simp
  show ?thesis
    using empty_turn_is_sent [OF s refl i, where loads = json_loads and fs = Map.empty]
          s i m mo po sr sv
    by simp
qed

subsection \<open>The invariant of a history\<close>

text \<open>
  Claim C9: when the history given to \<open>get_completions\<close> is absent or satisfies the
  invariant, every history the call returns satisfies it: the first message has the
  role \<open>system\<close> and every message carries the identifier of the first.  This covers
  the new conversation, the change of agent, the appended user message and the appended
  assistant message, and the histories returned after a failure.
\<close>

theorem get_completions_keeps_invariant:
  assumes "case hist of None \<Rightarrow> True | Some h \<Rightarrow> history_invariant h"
      and "fst (snd (get_completions loads c e fs prompt image_path hist agent instruction))
             = Some h'"
  shows "history_invariant h'"
proof (cases "start_or_continue c (fresh_task_id e) hist agent instruction")
  case (Inl err)
  then have "hist = Some h'"
    using assms(2) get_completions_start_fails [OF Inl] by simp
  then show ?thesis using assms(1) by simp
next
  case (Inr h0)
  then obtain m0 rest where h0: "h0 = m0 # rest"
    using start_or_continue_nonempty [OF Inr] by (cases h0) auto
  have inv: "history_invariant (m0 # rest)"
    using start_or_continue_invariant [OF assms(1) Inr] h0 by simp
  obtain turn where "fst (snd (get_completions loads c e fs prompt image_path hist agent instruction))
                  = Some ((m0 # rest) @ turn)" and "list_all (\<lambda>x. msg_id x = msg_id m0) turn"
    using get_completions_history_cases [of c e hist agent instruction m0 rest] Inr h0 by blast
  then show ?thesis
    using assms(2) history_invariant_append [OF inv] by simp
qed

theorem get_completions_keeps_invariant_witness:
  "history_invariant [ex_system, ex_user, ex_assistant]
   \<and> fst (snd (get_completions json_loads ex_client ex_env Map.empty ''More'' NoImage
                  (Some [ex_system, ex_user, ex_assistant]) ''default'' None))
       = Some [ex_system, ex_user, ex_assistant, ex_user2,
               assistant_message ex_client ex_task_id (Some ''Hello'')]
   \<and> history_invariant [ex_system, ex_user, ex_assistant, ex_user2,
                         assistant_message ex_client ex_task_id (Some ''Hello'')]"
proof -
  have i: "history_invariant [ex_system, ex_user, ex_assistant]" by code_simp
  then have h: "case Some [ex_system, ex_user, ex_assistant] of
                  None \<Rightarrow> True | Some h \<Rightarrow> history_invariant h" by simp
  have r: "fst (snd (get_completions json_loads ex_client ex_env Map.empty ''More'' NoImage
                  (Some [ex_system, ex_user, ex_assistant]) ''default'' None))
       = Some [ex_system, ex_user, ex_assistant, ex_user2,
               assistant_message ex_client ex_task_id (Some ''Hello'')]"
    by code_simp
  show ?thesis using get_completions_keeps_invariant [OF h r] i r by simp
qed

subsection \<open>Failed turns\<close>

text \<open>
  Claim C1, as stated, fails on the code.  The handler returns the variable \<open>history\<close>
  as it is when the exception arrives, and the user message is appended before the
  request is sent: after a failed request the returned history holds the user message of
  the failed turn.
\<close>

theorem get_completions_failure_counterexample:
  "fst (get_completions json_loads ex_client (ex_env\<lparr>post := Inl TransportError\<rparr>) Map.empty
          ''Hi'' NoImage (Some [ex_system]) ''default'' None) = None
   \<and> fst (snd (get_completions json_loads ex_client (ex_env\<lparr>post := Inl TransportError\<rparr>)
          Map.empty ''Hi'' NoImage (Some [ex_system]) ''default'' None))
       = Some [ex_system, ex_user]
   \<and> Some [ex_system, ex_user] \<noteq> Some [ex_system]"
  by code_simp

text \<open>
  Claim C1, amended: a call of \<open>get_completions\<close> that ends in an error returns a null
  response together with the history its variable holds at that moment: the history
  given at entry when the agent lookup fails; the history of the session-state step,
  with no message of the failed turn, when an upload fails; that history with the user
  message of the failed turn when the request fails; and that history with the user and
  the assistant message of the failed turn when decoding the stream or saving fails.
\<close>

theorem get_completions_failure_history:
  "(start_or_continue c (fresh_task_id e) hist agent instruction = Inl err \<longrightarrow>
      get_completions loads c e fs prompt image_path hist agent instruction = (None, hist, fs))
   \<and> (start_or_continue c (fresh_task_id e) hist agent instruction = Inr (m0 # rest)
        \<and> message_content (upload_image e) prompt image_path = Inl err \<longrightarrow>
      get_completions loads c e fs prompt image_path hist agent instruction
        = (None, Some (m0 # rest), fs))
   \<and> (start_or_continue c (fresh_task_id e) hist agent instruction = Inr (m0 # rest)
        \<and> message_content (upload_image e) prompt image_path = Inr parts
        \<and> post e = Inl err \<longrightarrow>
      get_completions loads c e fs prompt image_path hist agent instruction
        = (None, Some ((m0 # rest) @ [user_message c (msg_id m0) parts]), fs))
   \<and> (start_or_continue c (fresh_task_id e) hist agent instruction = Inr (m0 # rest)
        \<and> message_content (upload_image e) prompt image_path = Inr parts
        \<and> post e = Inr response
        \<and> h2 = (m0 # rest) @ [user_message c (msg_id m0) parts,
                    assistant_message c (msg_id m0) (stream_response loads c e response [])]
        \<and> (stream_response loads c e response [] = None \<or> snd (save_history c e fs h2) = Some err)
        \<longrightarrow>
      get_completions loads c e fs prompt image_path hist agent instruction
        = (None, Some h2, fst (save_history c e fs h2)))"
proof -
  have "start_or_continue c (fresh_task_id e) hist agent instruction = Inr (m0 # rest)
        \<and> message_content (upload_image e) prompt image_path = Inr parts
        \<and> post e = Inr response
        \<and> h2 = (m0 # rest) @ [user_message c (msg_id m0) parts,
                    assistant_message c (msg_id m0) (stream_response loads c e response [])]
        \<and> (stream_response loads c e response [] = None \<or> snd (save_history c e fs h2) = Some err)
        \<longrightarrow>
      get_completions loads c e fs prompt image_path hist agent instruction
        = (None, Some h2, fst (save_history c e fs h2))"
    using get_completions_answered [of c e hist agent instruction m0 rest prompt image_path
            parts response h2 loads fs]
    by auto
  then show ?thesis
    using get_completions_start_fails [of c e hist agent instruction err loads fs prompt image_path]
          get_completions_upload_fails [of c e hist agent instruction m0 rest prompt image_path
            err loads fs]
          get_completions_post_fails [of c e hist agent instruction m0 rest prompt image_path
            parts err loads fs]
    by blast
qed

theorem get_completions_failure_history_witness:
  "start_or_continue ex_client (fresh_task_id ex_env) None ''pirate'' None = Inl KeyError
   \<and> get_completions json_loads ex_client ex_env Map.empty ''Hi'' NoImage None ''pirate'' None
       = (None, None, Map.empty)
   \<and> start_or_continue ex_client (fresh_task_id ex_env) None ''default'' None = Inr [ex_system]
   \<and> message_content (upload_image ex_env) ''Hi'' (OnePath ''missing.png'') = Inl UploadError
   \<and> get_completions json_loads ex_client ex_env Map.empty ''Hi'' (OnePath ''missing.png'') None
         ''default'' None
       = (None, Some [ex_system], Map.empty)
   \<and> message_content (upload_image ex_env) ''Hi'' NoImage = Inr [text_part ''Hi'']
   \<and> post (ex_env\<lparr>post := Inl TransportError\<rparr>) = Inl TransportError
   \<and> get_completions json_loads ex_client (ex_env\<lparr>post := Inl TransportError\<rparr>) Map.empty ''Hi''
         NoImage None ''default'' None
       = (None, Some [ex_system, ex_user], Map.empty)
   \<and> post (ex_env\<lparr>post := Inr [Broken]\<rparr>) = Inr [Broken]
   \<and> stream_response json_loads ex_client (ex_env\<lparr>post := Inr [Broken]\<rparr>) [Broken] [] = None
   \<and> fst (snd (get_completions json_loads ex_client (ex_env\<lparr>post := Inr [Broken]\<rparr>) Map.empty
         ''Hi'' NoImage None ''default'' None))
       = Some [ex_system, ex_user, assistant_message ex_client ex_task_id None]"
proof -
  have s1: "start_or_continue ex_client (fresh_task_id ex_env) None ''pirate'' None = Inl KeyError"
    by code_simp
  have s2: "start_or_continue ex_client (fresh_task_id ex_env) None ''default'' None
              = Inr [ex_system]"
    by code_simp
  have s3: "start_or_continue ex_client (fresh_task_id (ex_env\<lparr>post := Inl TransportError\<rparr>))
              None ''default'' None = Inr [ex_system]"
    by code_simp
  have s4: "start_or_continue ex_client (fresh_task_id (ex_env\<lparr>post := Inr [Broken]\<rparr>))
              None ''default'' None = Inr [ex_system]"
    by code_simp
  have u1: "message_content (upload_image ex_env) ''Hi'' (OnePath ''missing.png'')
              = Inl UploadError"
    by code_simp
  have u2: "message_content (upload_image ex_env) ''Hi'' NoImage = Inr [text_part ''Hi'']"
    by code_simp
  have u3: "message_content (upload_image (ex_env\<lparr>post := Inl TransportError\<rparr>)) ''Hi'' NoImage
              = Inr [text_part ''Hi'']"
    by code_simp
  have u4: "message_content (upload_image (ex_env\<lparr>post := Inr [Broken]\<rparr>)) ''Hi'' NoImage
              = Inr [text_part ''Hi'']"
    by code_simp
  have p3: "post (ex_env\<lparr>post := Inl TransportError\<rparr>) = Inl TransportError" by simp
  have p4: "post (ex_env\<lparr>post := Inr [Broken]\<rparr>) = Inr [Broken]" by simp
  have d4: "stream_response json_loads ex_client (ex_env\<lparr>post := Inr [Broken]\<rparr>) [Broken] [] = None" by code_simp
  have m: "msg_id ex_system = ex_task_id" by (simp add: ex_system_def system_message_def)
  have us: "user_message ex_client ex_task_id [text_part ''Hi''] = ex_user"
    by (simp add: ex_user_def)
  note a = get_completions_failure_history
             [where c = ex_client and e = ex_env and hist = None and agent = "''pirate''"
                and instruction = None and err = KeyError and loads = json_loads
                and fs = Map.empty and prompt = "''Hi''" and image_path = NoImage]
  note b = get_completions_failure_history
             [where c = ex_client and e = ex_env and hist = None and agent = "''default''"
                and instruction = None and err = UploadError and loads = json_loads
                and fs = Map.empty and prompt = "''Hi''" and image_path = "OnePath ''missing.png''"
                and ?m0.0 = ex_system and rest = "[]"]
  note c = get_completions_failure_history
             [where c = ex_client and e = "ex_env\<lparr>post := Inl TransportError\<rparr>" and hist = None
                and agent = "''default''"
                and instruction = None and err = TransportError and loads = json_loads
                and fs = Map.empty and prompt = "''Hi''" and image_path = NoImage
                and ?m0.0 = ex_system and rest = "[]" and parts = "[text_part ''Hi'']"]
  note d = get_completions_failure_history
             [where c = ex_client and e = "ex_env\<lparr>post := Inr [Broken]\<rparr>" and hist = None
                and agent = "''default''"
                and instruction = None and loads = json_loads
                and fs = Map.empty and prompt = "''Hi''" and image_path = NoImage
                and ?m0.0 = ex_system and rest = "[]" and parts = "[text_part ''Hi'']"
                and response = "[Broken]"
                and ?h2.0 = "[ex_system, ex_user, assistant_message ex_client ex_task_id None]"]
  have r1: "get_completions json_loads ex_client ex_env Map.empty ''Hi'' NoImage None ''pirate'' None
       = (None, None, Map.empty)"
    using a s1 by simp
  have r2: "get_completions json_loads ex_client ex_env Map.empty ''Hi'' (OnePath ''missing.png'')
         None ''default'' None = (None, Some [ex_system], Map.empty)"
    using b s2 u1 by simp
  have r3: "get_completions json_loads ex_client (ex_env\<lparr>post := Inl TransportError\<rparr>) Map.empty
         ''Hi'' NoImage None ''default'' None = (None, Some [ex_system, ex_user], Map.empty)"
    using c s3 u3 p3 m us by simp
  have r4: "fst (snd (get_completions json_loads ex_client (ex_env\<lparr>post := Inr [Broken]\<rparr>)
         Map.empty ''Hi'' NoImage None ''default'' None))
       = Some [ex_system, ex_user, assistant_message ex_client ex_task_id None]"
    using d s4 u4 p4 d4 m us by simp
  show ?thesis using s1 s2 u1 u2 p3 p4 d4 r1 r2 r3 r4 by simp
qed

end
